theory Spec2Isabelle
  imports Main
begin

section \<open>Settings\<close>

text \<open>
  The plugin's settings (\<^verbatim>\<open>interface PluginSettings\<close> of \<^verbatim>\<open>main.ts\<close>).  The size and
  quality fields only feed the canvas re-encoder; they are kept as integers
  (pixels, and quality in hundredths) so that the record has every field of the source.
\<close>

record PluginSettings =
  imageNamePattern :: string
  dupNumberAtStart :: bool
  dupNumberDelimiter :: string
  dupNumberAlways :: bool
  autoRename :: bool
  handleAllAttachments :: bool
  excludeExtensionPattern :: string
  disableRenameNotice :: bool
  enableCompression :: bool
  maxWidth :: int
  maxHeight :: int
  jpgQuality :: int
  webpQuality :: int
  avifQuality :: int
  outputFormat :: string
  smartFormatSelection :: bool

definition DEFAULT_SETTINGS :: PluginSettings where
  "DEFAULT_SETTINGS =
     \<lparr> imageNamePattern = ''{{fileName}}'',
       dupNumberAtStart = False,
       dupNumberDelimiter = ''-'',
       dupNumberAlways = False,
       autoRename = False,
       handleAllAttachments = False,
       excludeExtensionPattern = '''',
       disableRenameNotice = False,
       enableCompression = True,
       maxWidth = 1920,
       maxHeight = 1080,
       jpgQuality = 85,
       webpQuality = 80,
       avifQuality = 70,
       outputFormat = ''auto'',
       smartFormatSelection = True \<rparr>"

section \<open>Format selection\<close>

text \<open>
  \<^verbatim>\<open>supportsAvif()\<close> and \<^verbatim>\<open>supportsWebp()\<close> ask the canvas of the host whether it can encode
  the format.  Their two answers are the capability probe; the decision function reads
  nothing else of the environment.
\<close>

record CapabilityProbe =
  supportsAvif :: bool
  supportsWebp :: bool

definition getOptimalDefaultFormat :: "PluginSettings \<Rightarrow> CapabilityProbe \<Rightarrow> string \<Rightarrow> string" where
  "getOptimalDefaultFormat settings probe originalExtension =
     (if \<not> enableCompression settings then originalExtension
      else if outputFormat settings \<noteq> ''auto'' then outputFormat settings
      else if smartFormatSelection settings then
        (if supportsAvif probe \<and> originalExtension \<noteq> ''gif'' then ''avif''
         else if supportsWebp probe then ''webp''
         else ''jpg'')
      else ''webp'')"

text \<open>
  The preference order of the smart selection, as a list: the first entry that is
  available is the one chosen.  AVIF is available when the probe supports it and the
  source is not a \<^verbatim>\<open>gif\<close>; JPG is always available.
\<close>

definition smartCandidates :: "CapabilityProbe \<Rightarrow> string \<Rightarrow> (string \<times> bool) list" where
  "smartCandidates probe originalExtension =
     [(''avif'', supportsAvif probe \<and> originalExtension \<noteq> ''gif''),
      (''webp'', supportsWebp probe),
      (''jpg'', True)]"

definition firstAvailable :: "(string \<times> bool) list \<Rightarrow> string option" where
  "firstAvailable cands = map_option fst (find snd cands)"

section \<open>Strings and paths\<close>

text \<open>
  File names and patterns are \<^typ>\<open>string\<close>s, one \<^typ>\<open>char\<close> per code unit (the code units below
  256).  The backslash has no literal of its own in a string of this theory, so it gets
  a name.
\<close>

definition backslash :: char where
  "backslash = CHR 0x5C"

definition is_digit :: "char \<Rightarrow> bool" where
  "is_digit c = (c \<in> set ''0123456789'')"

definition startsWith :: "string \<Rightarrow> string \<Rightarrow> bool" where
  "startsWith s p = (take (length p) s = p)"

text \<open>
  \<^verbatim>\<open>String.prototype.slice(0, end)\<close>: a negative \<^verbatim>\<open>end\<close> counts from the end of the
  string, and the result is clamped to the string.
\<close>

definition slice0 :: "string \<Rightarrow> int \<Rightarrow> string" where
  "slice0 s e =
     take (nat (if e < 0 then max (int (length s) + e) 0 else min e (int (length s)))) s"

text \<open>
  Modelled from the spec: \<^verbatim>\<open>path.extension\<close> of \<^verbatim>\<open>utils.ts\<close>, which is not among the
  sources.  The spec splits a name at its last dot, the extension being everything
  after it.  (For a name without a dot the spec leaves the result open; the definition
  then returns the whole name.)
\<close>

definition path_extension :: "string \<Rightarrow> string" where
  "path_extension fullpath = rev (takeWhile (\<lambda>c. c \<noteq> CHR ''.'') (rev fullpath))"

text \<open>
  Modelled from the spec: \<^verbatim>\<open>path.basename\<close> and \<^verbatim>\<open>path.join\<close> of \<^verbatim>\<open>utils.ts\<close>, which
  are not among the sources: the last segment of a path, and a directory and a name put
  together with a slash (as \<^verbatim>\<open>openBatchConversionModal\<close> does by hand with
  \<^verbatim>\<open>parent.path + '/' + finalName\<close>).
\<close>

definition path_basename :: "string \<Rightarrow> string" where
  "path_basename fullpath = rev (takeWhile (\<lambda>c. c \<noteq> CHR ''/'') (rev fullpath))"

definition path_join :: "string \<Rightarrow> string \<Rightarrow> string" where
  "path_join dir file = dir @ ''/'' @ file"

section \<open>JavaScript numbers in file names\<close>

text \<open>
  The duplicate numbers are JavaScript numbers, that is doubles.  Those that occur here
  are \<open>NaN\<close>, infinity and doubles whose value is a natural number; \<open>Num n\<close> is the double
  of value \<open>n\<close>.  Every natural below \<open>2 ^ 53\<close> is a double.  \<open>round_double\<close> gives the
  double nearest to a natural, the one with the even mantissa when two are equally near,
  and infinity from \<open>2 ^ 1024 - 2 ^ 970\<close> on: \<open>e\<close> is the number of bits that do not fit
  into the 53 bits of the mantissa.
\<close>

datatype js_number = Num nat | NaN | Infinity

fun bit_length :: "nat \<Rightarrow> nat" where
  "bit_length n = (if n = 0 then 0 else Suc (bit_length (n div 2)))"

declare bit_length.simps [simp del]

definition round_double :: "nat \<Rightarrow> js_number" where
  "round_double n =
     (if bit_length n \<le> 53 then Num n
      else
        (let e = bit_length n - 53;
             q = n div 2 ^ e;
             r = n mod 2 ^ e;
             m = (if 2 ^ e < 2 * r \<or> (2 * r = 2 ^ e \<and> odd q) then q + 1 else q)
         in if 1024 < bit_length (m * 2 ^ e) then Infinity else Num (m * 2 ^ e)))"

definition digit_val :: "char \<Rightarrow> nat" where
  "digit_val c = of_char c - 48"

definition digits_val :: "string \<Rightarrow> nat" where
  "digits_val ds = foldl (\<lambda>n c. 10 * n + digit_val c) 0 ds"

text \<open>
  \<^verbatim>\<open>parseInt\<close> on a capture of \<^verbatim>\<open>\d+\<close>, or on \<^verbatim>\<open>undefined\<close> when the group took no part
  in the match: the double nearest to the value of the leading run of decimal digits,
  \<open>NaN\<close> when there is none.  (A capture of \<^verbatim>\<open>\d+\<close> has no sign, blank or \<^verbatim>\<open>0x\<close> prefix.
  The language lets an engine read the digits after the twentieth as zeros; the
  embedding reads them all, as V8 does.)
\<close>

definition parseInt :: "string option \<Rightarrow> js_number" where
  "parseInt v =
     (case v of None \<Rightarrow> NaN
      | Some s \<Rightarrow>
          (let ds = takeWhile is_digit s
           in if ds = [] then NaN else round_double (digits_val ds)))"

definition digit_char :: "nat \<Rightarrow> char" where
  "digit_char d = ''0123456789'' ! d"

fun show_nat :: "nat \<Rightarrow> string" where
  "show_nat n = (if n < 10 then [digit_char n] else show_nat (n div 10) @ [digit_char (n mod 10)])"

declare show_nat.simps [simp del]

text \<open>
  The text of a number in a template literal (\<^verbatim>\<open>Number::toString\<close>).  Below \<open>2 ^ 53\<close> it
  is the decimal numeral of the value.  Above, it is the decimal with the fewest
  significant digits among those that \<open>round_double\<close> takes to the value, the nearest to
  the value when there are two, written with its zeros when it is below \<open>10 ^ 21\<close> and
  with an exponent otherwise.  \<open>nearest_decimal v p\<close> looks among the multiples of
  \<open>10 ^ p\<close>; \<open>shortest_decimal\<close> tries the largest \<open>p\<close> first.
\<close>

definition nearest_decimal :: "nat \<Rightarrow> nat \<Rightarrow> nat option" where
  "nearest_decimal v p =
     (let lo = (v div 10 ^ p) * 10 ^ p;
          hi = lo + 10 ^ p;
          lo_ok = (round_double lo = Num v);
          hi_ok = (round_double hi = Num v)
      in if lo_ok \<and> hi_ok then
           Some (if v - lo < hi - v \<or> (v - lo = hi - v \<and> even (v div 10 ^ p)) then lo else hi)
         else if lo_ok then Some lo
         else if hi_ok then Some hi
         else None)"

fun shortest_decimal :: "nat \<Rightarrow> nat \<Rightarrow> nat" where
  "shortest_decimal v 0 = v"
| "shortest_decimal v (Suc p) =
     (case nearest_decimal v (Suc p) of Some c \<Rightarrow> c | None \<Rightarrow> shortest_decimal v p)"

definition strip_zeros :: "string \<Rightarrow> string" where
  "strip_zeros s = rev (dropWhile (\<lambda>c. c = CHR ''0'') (rev s))"

definition exponent_form :: "nat \<Rightarrow> string" where
  "exponent_form c =
     (let ds = show_nat c; s = strip_zeros ds
      in hd s # (if tl s = [] then [] else ''.'' @ tl s) @ ''e+'' @ show_nat (length ds - 1))"

definition js_toString :: "js_number \<Rightarrow> string" where
  "js_toString v =
     (case v of
        NaN \<Rightarrow> ''NaN''
      | Infinity \<Rightarrow> ''Infinity''
      | Num n \<Rightarrow>
          if bit_length n \<le> 53 then show_nat n
          else (let c = shortest_decimal n (length (show_nat n))
                in if c < 10 ^ 21 then show_nat c else exponent_form c))"

text \<open>\<^verbatim>\<open>Math.max\<close> of two numbers, and \<^verbatim>\<open>+ 1\<close>, which rounds.\<close>

definition js_max2 :: "js_number \<Rightarrow> js_number \<Rightarrow> js_number" where
  "js_max2 a b =
     (case (a, b) of
        (NaN, _) \<Rightarrow> NaN
      | (_, NaN) \<Rightarrow> NaN
      | (Infinity, _) \<Rightarrow> Infinity
      | (_, Infinity) \<Rightarrow> Infinity
      | (Num x, Num y) \<Rightarrow> Num (max x y))"

definition js_add1 :: "js_number \<Rightarrow> js_number" where
  "js_add1 a = (case a of Num x \<Rightarrow> round_double (x + 1) | NaN \<Rightarrow> NaN | Infinity \<Rightarrow> Infinity)"

section \<open>Regular expressions\<close>

text \<open>
  The patterns the plugin builds are compiled by \<^verbatim>\<open>new RegExp\<close>.  The embedding compiles
  the pattern text itself, for this fragment of the pattern language: pattern
  characters (among them \<^verbatim>\<open>]\<close> and \<^verbatim>\<open>}\<close>, and \<^verbatim>\<open>{\<close> where it opens no quantifier, which stand
  for themselves), \<^verbatim>\<open>\d\<close>, \<^verbatim>\<open>\s\<close>, a backslash before a syntax character, character classes,
  the assertions \<^verbatim>\<open>^\<close> and \<^verbatim>\<open>$\<close>, named groups, groups without a name (\<^verbatim>\<open>(\<close> and \<^verbatim>\<open>(?:\<close>),
  the greedy quantifiers \<^verbatim>\<open>*\<close>, \<^verbatim>\<open>+\<close>, \<^verbatim>\<open>?\<close> on a single character or class, and the
  alternation \<^verbatim>\<open>|\<close> outside every group.  The verdict \<open>SyntaxError\<close> is the exception the
  constructor throws.  The verdict \<open>Unsupported\<close> says that the pattern leaves the
  fragment (the dot, braced quantifiers, other escapes, look-around, lazy quantifiers, a
  quantified group, an alternation inside a group, a group name used twice in a pattern
  with an alternation); what the constructor does with such a pattern is asked of the
  host, see \<open>new_RegExp\<close> below.
\<close>

definition syntax_chars :: string where
  "syntax_chars = ''.*+?^${}()|[]'' @ [backslash]"

text \<open>
  Modelled from the spec: \<^verbatim>\<open>escapeRegExp\<close> of \<^verbatim>\<open>utils.ts\<close>, which is not among the
  sources.  The spec has the regex-special characters escaped so that the text matches
  literally; \<^verbatim>\<open>replaceAllLinksInEditor\<close> does it inline, a backslash before each of
  \<^verbatim>\<open>. * + ? ^ $ { } ( ) | [ ] \\<close>.
\<close>

definition escapeRegExp :: "string \<Rightarrow> string" where
  "escapeRegExp s = concat (map (\<lambda>c. if c \<in> set syntax_chars then [backslash, c] else [c]) s)"

datatype rx_error = SyntaxError | Unsupported

subsection \<open>Character classes\<close>

text \<open>
  A character class \<^verbatim>\<open>[...]\<close>: an optional \<^verbatim>\<open>^\<close>, then characters, ranges \<^verbatim>\<open>a-b\<close>, \<^verbatim>\<open>\s\<close>
  and a backslash before a syntax character or a dash.  As in the browser grammar, a
  dash is a range operator only between two atoms, and a range with \<^verbatim>\<open>\s\<close> at one end is
  the two ends and the dash.  \<open>class_lex\<close> reads the class up to its closing bracket and
  returns the rest of the pattern; another escape is \<open>Unsupported\<close>.  \<open>compile_class\<close>
  compiles a pattern that is one class and nothing else.
\<close>

datatype class_token = KChar char | KDash | KSpace

fun class_lex :: "bool \<Rightarrow> string \<Rightarrow> rx_error + class_token list \<times> string" where
  "class_lex esc [] = Inl SyntaxError"
| "class_lex False (c # cs) =
     (if c = backslash then class_lex True cs
      else if c = CHR '']'' then Inr ([], cs)
      else (case class_lex False cs of
              Inl e \<Rightarrow> Inl e
            | Inr (ts, rest) \<Rightarrow> Inr ((if c = CHR ''-'' then KDash else KChar c) # ts, rest)))"
| "class_lex True (c # cs) =
     (if c = CHR ''s'' then
        (case class_lex False cs of Inl e \<Rightarrow> Inl e | Inr (ts, rest) \<Rightarrow> Inr (KSpace # ts, rest))
      else if c \<in> set syntax_chars \<or> c = CHR ''-'' then
        (case class_lex False cs of Inl e \<Rightarrow> Inl e | Inr (ts, rest) \<Rightarrow> Inr (KChar c # ts, rest))
      else Inl Unsupported)"

datatype class_item = CChar char | CRange char char | CSpace

fun class_single :: "class_token \<Rightarrow> class_item" where
  "class_single (KChar c) = CChar c"
| "class_single KDash = CChar CHR ''-''"
| "class_single KSpace = CSpace"

definition class_range :: "class_token \<Rightarrow> class_token \<Rightarrow> rx_error + class_item list" where
  "class_range a b =
     (case (class_single a, class_single b) of
        (CChar x, CChar y) \<Rightarrow>
          if (of_char x :: nat) \<le> of_char y then Inr [CRange x y] else Inl SyntaxError
      | (x, y) \<Rightarrow> Inr [x, CChar CHR ''-'', y])"

fun class_ranges :: "class_token list \<Rightarrow> rx_error + class_item list" where
  "class_ranges [] = Inr []"
| "class_ranges [a] = Inr [class_single a]"
| "class_ranges [a, b] = Inr [class_single a, class_single b]"
| "class_ranges (a # b # c # ts) =
     (if b = KDash then
        (case class_range a c of
           Inl e \<Rightarrow> Inl e
         | Inr items \<Rightarrow>
            (case class_ranges ts of Inl e \<Rightarrow> Inl e | Inr others \<Rightarrow> Inr (items @ others)))
      else (case class_ranges (b # c # ts) of
              Inl e \<Rightarrow> Inl e
            | Inr others \<Rightarrow> Inr (class_single a # others)))"

text \<open>A compiled class: whether it is negated, and its items.\<close>

type_synonym char_class = "bool \<times> class_item list"

definition compile_class :: "string \<Rightarrow> rx_error + char_class" where
  "compile_class pattern =
     (case pattern of
        [] \<Rightarrow> Inl Unsupported
      | c # cs \<Rightarrow>
          if c \<noteq> CHR ''['' then Inl Unsupported
          else
            (let negated = (case cs of [] \<Rightarrow> False | d # _ \<Rightarrow> d = CHR ''^'');
                 body = (if negated then tl cs else cs)
             in case class_lex False body of
                  Inl e \<Rightarrow> Inl e
                | Inr (ts, rest) \<Rightarrow>
                    if rest \<noteq> [] then Inl Unsupported
                    else (case class_ranges ts of
                            Inl e \<Rightarrow> Inl e
                          | Inr items \<Rightarrow> Inr (negated, items))))"

text \<open>
  White space of \<^verbatim>\<open>\s\<close> among the code units below 256: tab, line feed, vertical tab,
  form feed, carriage return, space and the no-break space.
\<close>

definition js_space :: "char \<Rightarrow> bool" where
  "js_space c = ((of_char c :: nat) \<in> {9, 10, 11, 12, 13, 32, 160})"

fun item_accepts :: "class_item \<Rightarrow> char \<Rightarrow> bool" where
  "item_accepts (CChar x) c = (c = x)"
| "item_accepts (CRange x y) c = ((of_char x :: nat) \<le> of_char c \<and> (of_char c :: nat) \<le> of_char y)"
| "item_accepts CSpace c = js_space c"

definition class_accepts :: "char_class \<Rightarrow> char \<Rightarrow> bool" where
  "class_accepts cls c = (fst cls \<noteq> list_ex (\<lambda>i. item_accepts i c) (snd cls))"

subsection \<open>Patterns\<close>

datatype token = TChar char | TDigit | TSpace | TClass char_class | TCaret | TDollar
  | TOpen string | TClose | TStar | TPlus | TQuest | TBar

datatype lex_state = LNormal | LEscape | LGroup | LName string | LClass bool string

definition ident_start :: "char \<Rightarrow> bool" where
  "ident_start c = (c \<in> set ''abcdefghijklmnopqrstuvwxyzABCDEFGHIJKLMNOPQRSTUVWXYZ_$'')"

definition valid_name :: "string \<Rightarrow> bool" where
  "valid_name n = (case n of [] \<Rightarrow> False
     | c # cs \<Rightarrow> ident_start c \<and> list_all (\<lambda>x. ident_start x \<or> is_digit x) cs)"

definition cons_ok :: "'a \<Rightarrow> rx_error + 'a list \<Rightarrow> rx_error + 'a list" where
  "cons_ok x r = (case r of Inl e \<Rightarrow> Inl e | Inr xs \<Rightarrow> Inr (x # xs))"

text \<open>
  A brace opens a quantifier when it is followed by digits, an optional comma with
  optional digits, and the closing brace; otherwise it stands for itself.
\<close>

definition braced_quantifier :: "string \<Rightarrow> bool" where
  "braced_quantifier cs =
     (takeWhile is_digit cs \<noteq> [] \<and>
      (case dropWhile is_digit cs of
         [] \<Rightarrow> False
       | d # ds \<Rightarrow>
           d = CHR ''}'' \<or>
           (d = CHR '','' \<and>
            (case dropWhile is_digit ds of [] \<Rightarrow> False | e # _ \<Rightarrow> e = CHR ''}''))))"

text \<open>
  The tokens of a pattern.  \<open>LGroup\<close> is the state after \<^verbatim>\<open>(?\<close> and \<open>LName n\<close> the state
  inside \<^verbatim>\<open>(?<\<close>, \<open>n\<close> being the name read so far; a group without a name is opened with
  the empty name.  \<open>LClass esc body\<close> is the state inside a class, \<open>body\<close> being its text so
  far and \<open>esc\<close> telling that a backslash was just read.
\<close>

fun rx_lex :: "lex_state \<Rightarrow> string \<Rightarrow> rx_error + token list" where
  "rx_lex LNormal [] = Inr []"
| "rx_lex LEscape [] = Inl SyntaxError"
| "rx_lex LGroup [] = Inl SyntaxError"
| "rx_lex (LName n) [] = Inl SyntaxError"
| "rx_lex (LClass esc body) [] = Inl SyntaxError"
| "rx_lex LNormal (c # cs) =
     (if c = backslash then rx_lex LEscape cs
      else if c = CHR ''('' then
        (case cs of
           [] \<Rightarrow> cons_ok (TOpen []) (rx_lex LNormal cs)
         | d # ds \<Rightarrow>
             if d = CHR ''?'' then rx_lex LGroup ds else cons_ok (TOpen []) (rx_lex LNormal cs))
      else if c = CHR '')'' then cons_ok TClose (rx_lex LNormal cs)
      else if c = CHR ''^'' then cons_ok TCaret (rx_lex LNormal cs)
      else if c = CHR ''$'' then cons_ok TDollar (rx_lex LNormal cs)
      else if c = CHR ''*'' then cons_ok TStar (rx_lex LNormal cs)
      else if c = CHR ''+'' then cons_ok TPlus (rx_lex LNormal cs)
      else if c = CHR ''?'' then cons_ok TQuest (rx_lex LNormal cs)
      else if c = CHR ''|'' then cons_ok TBar (rx_lex LNormal cs)
      else if c = CHR ''['' then rx_lex (LClass False []) cs
      else if c = CHR ''.'' then Inl Unsupported
      else if c = CHR ''{'' \<and> braced_quantifier cs then Inl Unsupported
      else cons_ok (TChar c) (rx_lex LNormal cs))"
| "rx_lex LEscape (c # cs) =
     (if c = CHR ''d'' then cons_ok TDigit (rx_lex LNormal cs)
      else if c = CHR ''s'' then cons_ok TSpace (rx_lex LNormal cs)
      else if c \<in> set syntax_chars then cons_ok (TChar c) (rx_lex LNormal cs)
      else Inl Unsupported)"
| "rx_lex LGroup (c # cs) =
     (if c = CHR ''<'' then rx_lex (LName []) cs
      else if c = CHR '':'' then cons_ok (TOpen []) (rx_lex LNormal cs)
      else Inl Unsupported)"
| "rx_lex (LName n) (c # cs) =
     (if c = CHR ''>'' then
        (if valid_name n then cons_ok (TOpen n) (rx_lex LNormal cs) else Inl Unsupported)
      else if ident_start c \<or> is_digit c then rx_lex (LName (n @ [c])) cs
      else Inl Unsupported)"
| "rx_lex (LClass esc body) (c # cs) =
     (if esc then rx_lex (LClass False (body @ [backslash, c])) cs
      else if c = backslash then rx_lex (LClass True body) cs
      else if c = CHR '']'' then
        (case compile_class (''['' @ body @ '']'') of
           Inl e \<Rightarrow> Inl e
         | Inr cls \<Rightarrow> cons_ok (TClass cls) (rx_lex LNormal cs))
      else rx_lex (LClass False (body @ [c])) cs)"

datatype quant = One | Opt | Star | Plus
datatype atom = Chr char | Dig | Space | Cls char_class
datatype item = Atom atom quant | Bol | Eol | Open string | Close | Bar

fun is_quant :: "token \<Rightarrow> bool" where
  "is_quant TStar = True"
| "is_quant TPlus = True"
| "is_quant TQuest = True"
| "is_quant _ = False"

fun token_quant :: "token \<Rightarrow> quant" where
  "token_quant TStar = Star"
| "token_quant TPlus = Plus"
| "token_quant TQuest = Opt"
| "token_quant _ = One"

fun rx_items :: "nat \<Rightarrow> string list \<Rightarrow> token list \<Rightarrow> rx_error + item list"
  and rx_atom :: "nat \<Rightarrow> string list \<Rightarrow> atom \<Rightarrow> token list \<Rightarrow> rx_error + item list" where
  "rx_items d seen [] = (if d = 0 then Inr [] else Inl SyntaxError)"
| "rx_items d seen (TCaret # ts) = cons_ok Bol (rx_items d seen ts)"
| "rx_items d seen (TDollar # ts) = cons_ok Eol (rx_items d seen ts)"
| "rx_items d seen (TOpen n # ts) =
     (if n \<noteq> [] \<and> n \<in> set seen then Inl SyntaxError
      else cons_ok (Open n) (rx_items (Suc d) (n # seen) ts))"
| "rx_items d seen (TClose # ts) =
     (case d of 0 \<Rightarrow> Inl SyntaxError
      | Suc d' \<Rightarrow>
          (case ts of [] \<Rightarrow> cons_ok Close (rx_items d' seen ts)
           | t # _ \<Rightarrow> if is_quant t then Inl Unsupported else cons_ok Close (rx_items d' seen ts)))"
| "rx_items d seen (TStar # ts) = Inl SyntaxError"
| "rx_items d seen (TPlus # ts) = Inl SyntaxError"
| "rx_items d seen (TQuest # ts) = Inl SyntaxError"
| "rx_items d seen (TChar c # ts) = rx_atom d seen (Chr c) ts"
| "rx_items d seen (TDigit # ts) = rx_atom d seen Dig ts"
| "rx_items d seen (TSpace # ts) = rx_atom d seen Space ts"
| "rx_items d seen (TClass cls # ts) = rx_atom d seen (Cls cls) ts"
| "rx_items d seen (TBar # ts) =
     (if d = 0 then cons_ok Bar (rx_items d seen ts) else Inl Unsupported)"
| "rx_atom d seen a [] = cons_ok (Atom a One) (rx_items d seen [])"
| "rx_atom d seen a (t # ts) =
     (if is_quant t then
        (case ts of TQuest # _ \<Rightarrow> Inl Unsupported
         | _ \<Rightarrow> cons_ok (Atom a (token_quant t)) (rx_items d seen ts))
      else cons_ok (Atom a One) (rx_items d seen (t # ts)))"

text \<open>The names of the named groups of a pattern, in the order of the pattern.\<close>

fun open_names :: "token list \<Rightarrow> string list" where
  "open_names [] = []"
| "open_names (TOpen n # ts) = (if n = [] then open_names ts else n # open_names ts)"
| "open_names (t # ts) = open_names ts"

definition rx_compile :: "string \<Rightarrow> rx_error + item list" where
  "rx_compile pattern =
     (case rx_lex LNormal pattern of
        Inl e \<Rightarrow> Inl e
      | Inr ts \<Rightarrow>
          if TBar \<in> set ts \<and> \<not> distinct (open_names ts) then Inl Unsupported
          else rx_items 0 [] ts)"


type_synonym captures = "(string \<times> string) list"

definition feed :: "char \<Rightarrow> captures \<Rightarrow> captures" where
  "feed x opened = map (\<lambda>(n, t). (n, t @ [x])) opened"

fun accepts :: "atom \<Rightarrow> char \<Rightarrow> bool" where
  "accepts (Chr c) x = (x = c)"
| "accepts Dig x = is_digit x"
| "accepts Space x = js_space x"
| "accepts (Cls cls) x = class_accepts cls x"

function rx_run :: "item list \<Rightarrow> bool \<Rightarrow> string \<Rightarrow> captures \<Rightarrow> captures \<Rightarrow> (captures \<times> string) list" where
  "rx_run [] b inp opened caps = [(caps, inp)]"
| "rx_run (Bol # r) b inp opened caps = (if b then rx_run r b inp opened caps else [])"
| "rx_run (Eol # r) b inp opened caps = (if inp = [] then rx_run r b inp opened caps else [])"
| "rx_run (Open n # r) b inp opened caps = rx_run r b inp ((n, []) # opened) caps"
| "rx_run (Close # r) b inp opened caps =
     (case opened of [] \<Rightarrow> []
      | g # opened' \<Rightarrow> rx_run r b inp opened' (if fst g = [] then caps else g # caps))"
| "rx_run (Atom a One # r) b inp opened caps =
     (case inp of [] \<Rightarrow> []
      | x # xs \<Rightarrow> if accepts a x then rx_run r False xs (feed x opened) caps else [])"
| "rx_run (Atom a Opt # r) b inp opened caps =
     (case inp of [] \<Rightarrow> []
      | x # xs \<Rightarrow> if accepts a x then rx_run r False xs (feed x opened) caps else [])
     @ rx_run r b inp opened caps"
| "rx_run (Atom a Star # r) b inp opened caps =
     (case inp of [] \<Rightarrow> []
      | x # xs \<Rightarrow> if accepts a x then rx_run (Atom a Star # r) False xs (feed x opened) caps else [])
     @ rx_run r b inp opened caps"
| "rx_run (Atom a Plus # r) b inp opened caps =
     (case inp of [] \<Rightarrow> []
      | x # xs \<Rightarrow> if accepts a x then rx_run (Atom a Star # r) False xs (feed x opened) caps else [])"
| "rx_run (Bar # r) b inp opened caps = [(caps, inp)]"
  by pat_completeness auto
termination
  by (relation "measure (\<lambda>(r, b, inp, opened, caps). length r + length inp)") auto

text \<open>
  An alternation ends the alternative before it: the run of an alternative succeeds when it
  reaches \<open>Bar\<close>.  \<open>alternatives\<close> lists what follows each \<open>Bar\<close>; at one position the
  alternatives are tried from left to right, and a group that took no part in the match has no
  value.
\<close>

fun alternatives :: "item list \<Rightarrow> item list list" where
  "alternatives [] = []"
| "alternatives (i # r) = (if i = Bar then r # alternatives r else alternatives r)"

definition rx_any :: "item list \<Rightarrow> bool \<Rightarrow> string \<Rightarrow> (captures \<times> string) list" where
  "rx_any rx b inp = concat (map (\<lambda>alt. rx_run alt b inp [] []) (rx # alternatives rx))"

fun rx_scan :: "item list \<Rightarrow> bool \<Rightarrow> string \<Rightarrow> captures option" where
  "rx_scan rx b inp =
     (case rx_any rx b inp of
        (caps, rest) # _ \<Rightarrow> Some caps
      | [] \<Rightarrow> (case inp of [] \<Rightarrow> None | x # xs \<Rightarrow> rx_scan rx False xs))"

definition rx_exec :: "item list \<Rightarrow> string \<Rightarrow> captures option" where
  "rx_exec rx inp = rx_scan rx True inp"

text \<open>
  \<^verbatim>\<open>s.replace(re, '')\<close> for a global expression: the matches are looked for from left to
  right, each from the end of the one before, and removed; after an empty match the
  search moves on by one character.  \<open>match_length\<close> is the length of the match that
  begins at the front of a string.
\<close>

definition match_length :: "item list \<Rightarrow> bool \<Rightarrow> string \<Rightarrow> nat option" where
  "match_length rx b inp =
     (case rx_any rx b inp of [] \<Rightarrow> None | (caps, rest) # _ \<Rightarrow> Some (length inp - length rest))"

fun rx_remove :: "item list \<Rightarrow> bool \<Rightarrow> string \<Rightarrow> string" where
  "rx_remove rx b [] = []"
| "rx_remove rx b (x # xs) =
     (case match_length rx b (x # xs) of
        None \<Rightarrow> x # rx_remove rx False xs
      | Some 0 \<Rightarrow> x # rx_remove rx False xs
      | Some (Suc n) \<Rightarrow> rx_remove rx False (drop n xs))"

text \<open>
  The host's \<^verbatim>\<open>RegExp\<close> on the patterns outside the fragment, a parameter of the model.
  For such a pattern \<open>exec_of\<close> is nothing when the constructor throws, and otherwise
  \<^verbatim>\<open>exec\<close> of the expression without flags: for a string, nothing or the named groups
  that took part in the match.  \<open>remover_of\<close> is the same for the flags \<^verbatim>\<open>gm\<close> and
  \<^verbatim>\<open>s.replace(re, '')\<close>.  \<open>message_of\<close> is the message of the exception the constructor
  throws for a pattern, whose wording is the engine's.
\<close>

record RegExpHost =
  exec_of :: "string \<Rightarrow> (string \<Rightarrow> captures option) option"
  remover_of :: "string \<Rightarrow> (string \<Rightarrow> string) option"
  message_of :: "string \<Rightarrow> string"

text \<open>
  \<^verbatim>\<open>new RegExp(pattern)\<close>, used through \<^verbatim>\<open>exec\<close>: the embedded engine decides the
  fragment, the host the rest.  The only error is \<open>SyntaxError\<close>.
\<close>

definition new_RegExp :: "RegExpHost \<Rightarrow> string \<Rightarrow> rx_error + (string \<Rightarrow> captures option)" where
  "new_RegExp host pattern =
     (case rx_compile pattern of
        Inr items \<Rightarrow> Inr (rx_exec items)
      | Inl SyntaxError \<Rightarrow> Inl SyntaxError
      | Inl Unsupported \<Rightarrow>
          (case exec_of host pattern of None \<Rightarrow> Inl SyntaxError | Some exec \<Rightarrow> Inr exec))"


section \<open>Duplicate resolution\<close>

record NameObj =
  name :: string
  stem :: string
  extension :: string

text \<open>
  The text of \<^verbatim>\<open>dupNameRegex\<close>.  The stem and the delimiter go through
  \<^const>\<open>escapeRegExp\<close>; the extension is put into the pattern as it is.
\<close>

definition dupNamePattern :: "PluginSettings \<Rightarrow> string \<Rightarrow> string \<Rightarrow> string" where
  "dupNamePattern settings newNameStem newNameExt =
     (let newNameStemEscaped = escapeRegExp newNameStem;
          delimiterEscaped = escapeRegExp (dupNumberDelimiter settings)
      in if dupNumberAtStart settings then
           ''^(?<number>'' @ [backslash] @ ''d+)'' @ delimiterEscaped
             @ ''(?<name>'' @ newNameStemEscaped @ '')'' @ [backslash] @ ''.'' @ newNameExt @ ''$''
         else
           ''^(?<name>'' @ newNameStemEscaped @ '')'' @ delimiterEscaped
             @ ''(?<number>'' @ [backslash] @ ''d+)'' @ [backslash] @ ''.'' @ newNameExt @ ''$'')"

text \<open>
  The loop over the listing.  The accumulator is \<^verbatim>\<open>dupNameNumbers\<close> and
  \<^verbatim>\<open>isNewNameExist\<close>; the listing holds the base names of the files of the directory
  (the loop takes \<^verbatim>\<open>path.basename\<close> of every entry first).
\<close>

fun scanSiblings ::
    "(string \<Rightarrow> captures option) \<Rightarrow> string \<Rightarrow> string list \<Rightarrow> js_number list \<times> bool
       \<Rightarrow> js_number list \<times> bool" where
  "scanSiblings dupNameRegex newName [] acc = acc"
| "scanSiblings dupNameRegex newName (sibling # rest) (dupNameNumbers, isNewNameExist) =
     (if sibling = newName then scanSiblings dupNameRegex newName rest (dupNameNumbers, True)
      else
        (case dupNameRegex sibling of
           None \<Rightarrow> scanSiblings dupNameRegex newName rest (dupNameNumbers, isNewNameExist)
         | Some groups \<Rightarrow>
             scanSiblings dupNameRegex newName rest
               (dupNameNumbers @ [parseInt (map_of groups ''number'')], isNewNameExist)))"

text \<open>
  \<^verbatim>\<open>dupNameNumbers.length > 0 ? Math.max(...dupNameNumbers) + 1 : 1\<close>
\<close>

definition newNumber :: "js_number list \<Rightarrow> js_number" where
  "newNumber dupNameNumbers =
     (case dupNameNumbers of [] \<Rightarrow> Num 1 | n # ns \<Rightarrow> js_add1 (fold js_max2 ns n))"

definition numberedName :: "PluginSettings \<Rightarrow> string \<Rightarrow> string \<Rightarrow> js_number \<Rightarrow> string" where
  "numberedName settings newNameStem newNameExt n =
     (if dupNumberAtStart settings then
        js_toString n @ dupNumberDelimiter settings @ newNameStem @ ''.'' @ newNameExt
      else
        newNameStem @ dupNumberDelimiter settings @ js_toString n @ ''.'' @ newNameExt)"

text \<open>
  The text of the rule for a candidate name, split as \<^verbatim>\<open>deduplicateNewName\<close> splits it.
\<close>

definition dupNameRegexText :: "PluginSettings \<Rightarrow> string \<Rightarrow> string" where
  "dupNameRegexText settings newName =
     (let newNameExt = path_extension newName;
          newNameStem = slice0 newName (int (length newName) - int (length newNameExt) - 1)
      in dupNamePattern settings newNameStem newNameExt)"

text \<open>
  \<^verbatim>\<open>deduplicateNewName\<close> on the listing of the directory.  The result is the name object,
  or the \<open>SyntaxError\<close> of the constructor.
\<close>

definition deduplicateNewName ::
    "RegExpHost \<Rightarrow> PluginSettings \<Rightarrow> string \<Rightarrow> string list \<Rightarrow> rx_error + NameObj" where
  "deduplicateNewName host settings newName listed =
     (let newNameExt = path_extension newName;
          newNameStem = slice0 newName (int (length newName) - int (length newNameExt) - 1)
      in case new_RegExp host (dupNamePattern settings newNameStem newNameExt) of
           Inl e \<Rightarrow> Inl e
         | Inr dupNameRegex \<Rightarrow>
            (let (dupNameNumbers, isNewNameExist) =
                   scanSiblings dupNameRegex newName listed ([], False);
                 newName' =
                   (if isNewNameExist \<or> dupNumberAlways settings
                    then numberedName settings newNameStem newNameExt (newNumber dupNameNumbers)
                    else newName)
             in Inr \<lparr> name = newName',
                      stem = slice0 newName' (int (length newName') - int (length newNameExt) - 1),
                      extension = newNameExt \<rparr>))"

subsection \<open>The numbering rule in the spec's words\<close>

text \<open>
  The spec describes an already-numbered sibling without a regular expression: strip the
  extension, the run of digits and the delimiter, and what is left is the stem, letter
  for letter.  \<open>between pre post s\<close> is the middle of \<open>s\<close> when \<open>s\<close> starts with \<open>pre\<close> and
  ends with \<open>post\<close>.
\<close>

definition between :: "string \<Rightarrow> string \<Rightarrow> string \<Rightarrow> string option" where
  "between pre post s =
     (if length pre + length post \<le> length s \<and> take (length pre) s = pre
         \<and> drop (length s - length post) s = post
      then Some (take (length s - length pre - length post) (drop (length pre) s))
      else None)"

definition spec_numbered :: "PluginSettings \<Rightarrow> string \<Rightarrow> string \<Rightarrow> string \<Rightarrow> string option" where
  "spec_numbered settings stm ext sibling =
     (case (if dupNumberAtStart settings
            then between [] (dupNumberDelimiter settings @ stm @ ''.'' @ ext) sibling
            else between (stm @ dupNumberDelimiter settings) (''.'' @ ext) sibling) of
        None \<Rightarrow> None
      | Some ds \<Rightarrow> if ds \<noteq> [] \<and> list_all is_digit ds then Some ds else None)"

definition spec_numbers :: "PluginSettings \<Rightarrow> string \<Rightarrow> string \<Rightarrow> string list \<Rightarrow> nat list" where
  "spec_numbers settings stm ext listed =
     map digits_val (List.map_filter (spec_numbered settings stm ext) listed)"

definition spec_next_number :: "nat list \<Rightarrow> nat" where
  "spec_next_number ns = (if ns = [] then 1 else Max (set ns) + 1)"

text \<open>An extension without a character that is special in a pattern.\<close>

definition plain_text :: "string \<Rightarrow> bool" where
  "plain_text s = list_all (\<lambda>c. c \<notin> set syntax_chars) s"

subsection \<open>The compiled numbering rule\<close>

text \<open>
  What \<^const>\<open>rx_compile\<close> makes of \<^const>\<open>dupNamePattern\<close> when the extension is plain text:
  every character of the stem, the delimiter and the extension is matched literally.
\<close>

definition lits :: "string \<Rightarrow> item list" where
  "lits s = map (\<lambda>c. Atom (Chr c) One) s"

definition dup_items :: "PluginSettings \<Rightarrow> string \<Rightarrow> string \<Rightarrow> item list" where
  "dup_items settings stm ext =
     (if dupNumberAtStart settings then
        [Bol, Open ''number'', Atom Dig Plus, Close] @ lits (dupNumberDelimiter settings)
          @ [Open ''name''] @ lits stm @ [Close] @ lits (''.'' @ ext) @ [Eol]
      else
        [Bol, Open ''name''] @ lits stm @ [Close] @ lits (dupNumberDelimiter settings)
          @ [Open ''number'', Atom Dig Plus, Close] @ lits (''.'' @ ext) @ [Eol])"

definition feeds :: "string \<Rightarrow> captures \<Rightarrow> captures" where
  "feeds s opened = map (\<lambda>(n, t). (n, t @ s)) opened"

definition dup_groups :: "PluginSettings \<Rightarrow> string \<Rightarrow> string \<Rightarrow> captures" where
  "dup_groups settings stm ds =
     (if dupNumberAtStart settings
      then [(''name'', stm), (''number'', ds)]
      else [(''number'', ds), (''name'', stm)])"

section \<open>Files of the vault\<close>

text \<open>
  A \<^verbatim>\<open>TFile\<close> of the host, with the fields the plugin reads: \<^verbatim>\<open>name\<close>, \<^verbatim>\<open>basename\<close>,
  \<^verbatim>\<open>extension\<close>, \<^verbatim>\<open>path\<close>, \<^verbatim>\<open>parent.path\<close>, \<^verbatim>\<open>parent.name\<close> and \<^verbatim>\<open>stat.ctime\<close>
  (milliseconds).  A \<^verbatim>\<open>TAbstractFile\<close> is a file or a folder.
\<close>

record TFile =
  file_name :: string
  file_basename :: string
  file_extension :: string
  file_path :: string
  parent_path :: string
  parent_name :: string
  ctime :: int

datatype TAbstractFile = AFile TFile | AFolder string

definition PASTED_IMAGE_PREFIX :: string where
  "PASTED_IMAGE_PREFIX = ''Pasted image ''"

fun isPastedImage :: "TAbstractFile \<Rightarrow> bool" where
  "isPastedImage (AFile f) = startsWith (file_name f) PASTED_IMAGE_PREFIX"
| "isPastedImage (AFolder _) = False"

fun isMarkdownFile :: "TAbstractFile \<Rightarrow> bool" where
  "isMarkdownFile (AFile f) = (file_extension f = ''md'')"
| "isMarkdownFile (AFolder _) = False"

section \<open>The file-creation handler\<close>

text \<open>
  \<^verbatim>\<open>testExcludeExtension\<close> compiles the user's pattern and tests the extension with it.
  The pattern is any regular expression, so the test is a parameter \<open>regExpTest\<close> of the
  model: \<open>regExpTest pattern s\<close> is \<^verbatim>\<open>new RegExp(pattern).test(s)\<close>, or the error the
  constructor throws.  An empty pattern excludes nothing and compiles nothing.
\<close>

definition testExcludeExtension ::
    "PluginSettings \<Rightarrow> (string \<Rightarrow> string \<Rightarrow> rx_error + bool) \<Rightarrow> TFile \<Rightarrow> rx_error + bool" where
  "testExcludeExtension settings regExpTest file =
     (let pattern = excludeExtensionPattern settings
      in if pattern = [] then Inr False else regExpTest pattern (file_extension file))"

text \<open>
  What the handler of the vault's \<^verbatim>\<open>create\<close> event does with a file: nothing, or
  \<^verbatim>\<open>startRenameProcess(file, autoRename)\<close>, or it throws.  \<open>now\<close> is
  \<^verbatim>\<open>new Date().getTime()\<close>.
\<close>

datatype create_outcome = Ignored | Started TFile bool | Threw rx_error

definition onCreate ::
    "PluginSettings \<Rightarrow> (string \<Rightarrow> string \<Rightarrow> rx_error + bool) \<Rightarrow> bool \<Rightarrow> int \<Rightarrow> TAbstractFile
       \<Rightarrow> create_outcome" where
  "onCreate settings regExpTest isProcessingCompression now file =
     (case file of
        AFolder _ \<Rightarrow> Ignored
      | AFile f \<Rightarrow>
          (let timeGapMs = now - ctime f
           in if timeGapMs > 1000 then Ignored
              else if isMarkdownFile file then Ignored
              else if isProcessingCompression then Ignored
              else if isPastedImage file then Started f (autoRename settings)
              else if handleAllAttachments settings then
                (case testExcludeExtension settings regExpTest f of
                   Inl e \<Rightarrow> Threw e
                 | Inr excluded \<Rightarrow> if excluded then Ignored else Started f (autoRename settings))
              else Ignored))"

section \<open>Name generation\<close>

text \<open>
  \<^verbatim>\<open>meaninglessRegex\<close> is \<^verbatim>\<open>new RegExp(`[${delimiter}\\s]`, 'gm')\<close>: the delimiter is put
  into a character class as it is.  A delimiter without a closing bracket leaves the
  pattern one character class; with one that is not escaped, the class ends at that
  bracket and the pattern goes on after it.
\<close>

text \<open>\<^verbatim>\<open>s.replace(re, '')\<close> for a global expression that is one class.\<close>

definition remove_class :: "char_class \<Rightarrow> string \<Rightarrow> string" where
  "remove_class cls s = filter (\<lambda>c. \<not> class_accepts cls c) s"

text \<open>
  The text of \<^verbatim>\<open>meaninglessRegex\<close>, and the expression as it is used: the function that
  removes every match from a string.  A pattern that is one class is decided by
  \<open>compile_class\<close>, a pattern of the fragment without \<^verbatim>\<open>^\<close> and \<^verbatim>\<open>$\<close> (which the flag
  \<^verbatim>\<open>m\<close> changes) by \<open>rx_compile\<close>, the rest by the host.  The only error is
  \<open>SyntaxError\<close>.
\<close>

definition meaninglessRegexText :: "PluginSettings \<Rightarrow> string" where
  "meaninglessRegexText settings = ''['' @ dupNumberDelimiter settings @ [backslash] @ ''s]''"

definition host_remover :: "RegExpHost \<Rightarrow> string \<Rightarrow> rx_error + (string \<Rightarrow> string)" where
  "host_remover host pattern =
     (case remover_of host pattern of None \<Rightarrow> Inl SyntaxError | Some remove \<Rightarrow> Inr remove)"

definition meaninglessRegex :: "RegExpHost \<Rightarrow> PluginSettings \<Rightarrow> rx_error + (string \<Rightarrow> string)" where
  "meaninglessRegex host settings =
     (let pattern = meaninglessRegexText settings
      in case compile_class pattern of
           Inr cls \<Rightarrow> Inr (remove_class cls)
         | Inl SyntaxError \<Rightarrow> Inl SyntaxError
         | Inl Unsupported \<Rightarrow>
             (case rx_compile pattern of
                Inr items \<Rightarrow>
                  if Bol \<in> set items \<or> Eol \<in> set items then host_remover host pattern
                  else Inr (rx_remove items True)
              | Inl SyntaxError \<Rightarrow> Inl SyntaxError
              | Inl Unsupported \<Rightarrow> host_remover host pattern))"

text \<open>
  The delimiters every character of which stands for itself in the class: no backslash,
  no closing bracket, no \<^verbatim>\<open>^\<close> in front, and a dash only as the first or the last
  character.  \<open>class_tok\<close> is the token of a character of such a delimiter, and \<open>accepted\<close>
  the characters a list of class items accepts.
\<close>

definition class_literal :: "string \<Rightarrow> bool" where
  "class_literal d =
     (backslash \<notin> set d \<and> CHR '']'' \<notin> set d
      \<and> (case d of [] \<Rightarrow> True | c # _ \<Rightarrow> c \<noteq> CHR ''^'')
      \<and> CHR ''-'' \<notin> set (butlast (tl d)))"

definition class_tok :: "char \<Rightarrow> class_token" where
  "class_tok c = (if c = CHR ''-'' then KDash else KChar c)"

definition accepted :: "class_item list \<Rightarrow> char \<Rightarrow> bool" where
  "accepted items c = list_ex (\<lambda>i. item_accepts i c) items"

text \<open>
  The metadata cache of the active file: the frontmatter, a map from keys to values,
  the headings in document order, and the links of the embeds.
\<close>

record HeadingCache =
  heading :: string
  level :: nat

record FileCache =
  frontmatter :: "(string \<rightharpoonup> string) option"
  headings :: "HeadingCache list option"
  embeds :: "string list option"

fun firstLevel1 :: "HeadingCache list \<Rightarrow> string" where
  "firstLevel1 [] = []"
| "firstLevel1 (h # hs) = (if level h = 1 then heading h else firstLevel1 hs)"

definition getFirstHeading :: "HeadingCache list option \<Rightarrow> string" where
  "getFirstHeading hs = (case hs of None \<Rightarrow> [] | Some l \<Rightarrow> firstLevel1 l)"

record RenderVars =
  imageNameKey :: string
  fileName :: string
  dirName :: string
  firstHeading :: string

text \<open>
  The result of \<^verbatim>\<open>generateNewName\<close> (its fields \<^verbatim>\<open>stem\<close> and \<^verbatim>\<open>newName\<close> are \<open>genStem\<close>
  and \<open>genNewName\<close> here, \<open>stem\<close> being a field of \<^typ>\<open>NameObj\<close>).  \<^verbatim>\<open>renderTemplate\<close> of \<^verbatim>\<open>template.ts\<close> is not among
  the sources; it is the parameter \<open>render\<close>.
\<close>

record GeneratedName =
  genStem :: string
  genNewName :: string
  isMeaningful :: bool

definition generateNewName ::
    "RegExpHost \<Rightarrow> PluginSettings
       \<Rightarrow> (string \<Rightarrow> RenderVars \<Rightarrow> (string \<rightharpoonup> string) option \<Rightarrow> string)
       \<Rightarrow> TFile \<Rightarrow> TFile \<Rightarrow> FileCache option \<Rightarrow> rx_error + GeneratedName" where
  "generateNewName host settings render file activeFile fileCache =
     (let fm = (case fileCache of None \<Rightarrow> None | Some c \<Rightarrow> frontmatter c);
          key = (case fm of None \<Rightarrow> [] | Some m \<Rightarrow> (case m ''imageNameKey'' of None \<Rightarrow> [] | Some v \<Rightarrow> v));
          fh = (case fileCache of None \<Rightarrow> [] | Some c \<Rightarrow> getFirstHeading (headings c));
          stm = render (imageNamePattern settings)
                  \<lparr> imageNameKey = key, fileName = file_basename activeFile,
                    dirName = parent_name activeFile, firstHeading = fh \<rparr> fm
      in case meaninglessRegex host settings of
           Inl e \<Rightarrow> Inl e
         | Inr remove \<Rightarrow>
             Inr \<lparr> genStem = stm,
                   genNewName = stm @ ''.'' @ file_extension file,
                   isMeaningful = (remove stm \<noteq> []) \<rparr>)"

text \<open>
  \<^verbatim>\<open>startRenameProcess\<close>: without an active file a notice and nothing else; with a name
  that is not meaningful, or without auto rename, the modal (opened on the stem, or on
  the empty string); otherwise the rename of the file to the generated name.
\<close>

datatype rename_decision = NoActiveFile | OpenModal string | AutoRename string | GenerateThrew rx_error

definition startRenameProcess ::
    "RegExpHost \<Rightarrow> PluginSettings
       \<Rightarrow> (string \<Rightarrow> RenderVars \<Rightarrow> (string \<rightharpoonup> string) option \<Rightarrow> string)
       \<Rightarrow> TFile \<Rightarrow> (TFile \<times> FileCache option) option \<Rightarrow> bool \<Rightarrow> rename_decision" where
  "startRenameProcess host settings render file active autoRename' =
     (case active of
        None \<Rightarrow> NoActiveFile
      | Some (activeFile, fileCache) \<Rightarrow>
          (case generateNewName host settings render file activeFile fileCache of
             Inl e \<Rightarrow> GenerateThrew e
           | Inr g \<Rightarrow>
               if \<not> isMeaningful g \<or> \<not> autoRename' then
                 OpenModal (if isMeaningful g then genStem g else [])
               else AutoRename (genNewName g)))"

section \<open>The vault\<close>

text \<open>
  The vault collaborator as a finite store: the files in listing order, each a path and
  its bytes.  Beside it the state holds what the user is shown and what the plugin did
  to the vault: the notices, the vault operations in the order they were done, the
  flag \<^verbatim>\<open>isProcessingCompression\<close> and whether there is an active editor.  (The text of
  the editor is not part of the state.)
\<close>

datatype vault_event = Deleted string | Created string | Renamed string string

record World =
  vault :: "(string \<times> string) list"
  notices :: "string list"
  events :: "vault_event list"
  isProcessingCompression :: bool
  hasEditor :: bool

definition path_dirname :: "string \<Rightarrow> string" where
  "path_dirname p = take (length p - length (path_basename p) - 1) p"

text \<open>
  The host's operations: \<^verbatim>\<open>vault.adapter.list\<close> (the files of a directory),
  \<^verbatim>\<open>vault.readBinary\<close>, \<^verbatim>\<open>vault.delete\<close>, \<^verbatim>\<open>vault.createBinary\<close>, which refuses a path
  that exists, and \<^verbatim>\<open>fileManager.renameFile\<close>, which refuses a source that is gone and a
  destination that exists.  A refusal is an \<^verbatim>\<open>Error\<close>, given by its message; \<open>error_text\<close> is
  what a template literal makes of it.
\<close>

definition error_text :: "string \<Rightarrow> string" where
  "error_text message = ''Error: '' @ message"


definition adapter_list :: "(string \<times> string) list \<Rightarrow> string \<Rightarrow> string list" where
  "adapter_list v dir = map fst (filter (\<lambda>(p, d). path_dirname p = dir) v)"

definition vault_delete :: "(string \<times> string) list \<Rightarrow> string \<Rightarrow> (string \<times> string) list" where
  "vault_delete v p = filter (\<lambda>(q, d). q \<noteq> p) v"

definition vault_createBinary ::
    "(string \<times> string) list \<Rightarrow> string \<Rightarrow> string \<Rightarrow> string + (string \<times> string) list" where
  "vault_createBinary v p d =
     (if p \<in> fst ` set v then Inl ''File already exists.'' else Inr (v @ [(p, d)]))"

definition fileManager_renameFile ::
    "(string \<times> string) list \<Rightarrow> string \<Rightarrow> string \<Rightarrow> string + (string \<times> string) list" where
  "fileManager_renameFile v old new =
     (if old \<notin> fst ` set v then Inl ''File not found.''
      else if new \<in> fst ` set v then Inl ''Destination file already exists!''
      else Inr (map (\<lambda>(q, d). if q = old then (new, d) else (q, d)) v))"

text \<open>The \<^verbatim>\<open>TFile\<close> the host makes for a path.\<close>

definition tfile_at :: "string \<Rightarrow> int \<Rightarrow> TFile" where
  "tfile_at p t =
     (let nm = path_basename p;
          ext = (if CHR ''.'' \<in> set nm then path_extension nm else [])
      in \<lparr> file_name = nm,
           file_basename = (if CHR ''.'' \<in> set nm then take (length nm - length ext - 1) nm else nm),
           file_extension = ext,
           file_path = p,
           parent_path = path_dirname p,
           parent_name = path_basename (path_dirname p),
           ctime = t \<rparr>)"

section \<open>Renaming a file\<close>

text \<open>
  What a rename or a conversion can throw: the \<open>SyntaxError\<close> of a regular expression, or
  the refusal of the vault with its message.
\<close>

datatype failure = RegexFailure rx_error | IOFailure string

text \<open>
  \<^verbatim>\<open>renameFile\<close>: the name is deduplicated against the listing of the file's directory,
  the file is renamed, and a refusal of the vault is shown as a notice and thrown
  again; the \<open>SyntaxError\<close> of the numbering rule is thrown before anything is done, and
  without a notice.  With \<^verbatim>\<open>replaceCurrentLine\<close> the link in the editor is rewritten and
  the rename is announced; without an editor that is a notice of its own.  The result is
  the exception, if any, and the state left behind.
\<close>

definition renameFile ::
    "RegExpHost \<Rightarrow> PluginSettings \<Rightarrow> TFile \<Rightarrow> string \<Rightarrow> bool \<Rightarrow> World
       \<Rightarrow> failure option \<times> World" where
  "renameFile host settings file inputNewName replaceCurrentLine w =
     (case deduplicateNewName host settings inputNewName
             (map path_basename (adapter_list (vault w) (parent_path file))) of
        Inl e \<Rightarrow> (Some (RegexFailure e), w)
      | Inr r \<Rightarrow>
          (let newPath = path_join (parent_path file) (name r)
           in case fileManager_renameFile (vault w) (file_path file) newPath of
                Inl err \<Rightarrow>
                  (Some (IOFailure err),
                   w\<lparr>notices := notices w
                       @ [''Failed to rename '' @ name r @ '': '' @ error_text err]\<rparr>)
              | Inr v \<Rightarrow>
                  (let w1 = w\<lparr>vault := v, events := events w @ [Renamed (file_path file) newPath]\<rparr>
                   in if \<not> replaceCurrentLine then (None, w1)
                      else if \<not> hasEditor w1 then
                        (None, w1\<lparr>notices := notices w1
                                  @ [''Failed to rename '' @ name r @ '': no active editor'']\<rparr>)
                      else if disableRenameNotice settings then (None, w1)
                      else (None, w1\<lparr>notices := notices w1
                                  @ [''Renamed '' @ file_name file @ '' to '' @ name r]\<rparr>))))"

section \<open>Batch renaming\<close>








section \<open>Format conversion\<close>

definition getExtensionFromFormat :: "string \<Rightarrow> string" where
  "getExtensionFromFormat format =
     (if format = ''jpg'' then ''jpg''
      else if format = ''webp'' then ''webp''
      else if format = ''avif'' then ''avif''
      else if format = ''png'' then ''png''
      else ''jpg'')"

text \<open>
  \<^verbatim>\<open>path.replace(/\.[^.]+$/, '.' + newExtension)\<close>: the last dot and what follows it are
  replaced when something follows it; a path without a dot, or ending in one, stays.
\<close>

definition replaceExtension :: "string \<Rightarrow> string \<Rightarrow> string" where
  "replaceExtension p newExtension =
     (let ext = path_extension p
      in if CHR ''.'' \<in> set p \<and> ext \<noteq> []
         then take (length p - length ext - 1) p @ ''.'' @ newExtension
         else p)"

text \<open>
  \<^verbatim>\<open>compressToFormat\<close>.  \<open>compressBlob\<close> is the canvas re-encoder, a parameter: the bytes in
  the target format, or nothing when the image does not load or encode.  The result is
  the new file or \<^verbatim>\<open>null\<close>; every exception is caught inside.  \<open>now\<close> is the creation
  time of the new file.
\<close>

definition compressToFormat ::
    "(string \<Rightarrow> string \<Rightarrow> string option) \<Rightarrow> int \<Rightarrow> TFile \<Rightarrow> string \<Rightarrow> World
       \<Rightarrow> TFile option \<times> World" where
  "compressToFormat compressBlob now file targetFormat w =
     (let w0 = w\<lparr>isProcessingCompression := True\<rparr>
      in case map_of (vault w0) (file_path file) of
           None \<Rightarrow> (None, w0\<lparr>isProcessingCompression := False\<rparr>)
         | Some arrayBuffer \<Rightarrow>
            (case compressBlob arrayBuffer targetFormat of
               None \<Rightarrow> (None, w0)
             | Some compressedBlob \<Rightarrow>
                (let newExtension = getExtensionFromFormat targetFormat;
                     newPath = replaceExtension (file_path file) newExtension;
                     w1 = w0\<lparr>vault := vault_delete (vault w0) (file_path file),
                             events := events w0 @ [Deleted (file_path file)]\<rparr>
                 in case vault_createBinary (vault w1) newPath compressedBlob of
                      Inl err \<Rightarrow> (None, w1\<lparr>isProcessingCompression := False\<rparr>)
                    | Inr v \<Rightarrow>
                        (Some (tfile_at newPath now),
                         w1\<lparr>vault := v, events := events w1 @ [Created newPath],
                            isProcessingCompression := False\<rparr>))))"

text \<open>
  The callback of the rename modal when a format other than the file's own is chosen:
  the conversion, then the rename of the new file to the confirmed name with the new
  extension; when the conversion gives no file, or an exception is thrown on the way, a
  notice with the message of the exception and the plain rename of the original file.
\<close>

definition replaceLastExtension :: "string \<Rightarrow> string" where
  "replaceLastExtension nm =
     (let ext = path_extension nm
      in if CHR ''.'' \<in> set nm \<and> ext \<noteq> [] then take (length nm - length ext - 1) nm else nm)"

definition convertAndRename ::
    "RegExpHost \<Rightarrow> PluginSettings \<Rightarrow> (string \<Rightarrow> string \<Rightarrow> string option) \<Rightarrow> int \<Rightarrow> TFile
       \<Rightarrow> string \<Rightarrow> string \<Rightarrow> World \<Rightarrow> failure option \<times> World" where
  "convertAndRename host settings compressBlob now file confirmedName selectedFormat w =
     (let fallback = (\<lambda>msg w'.
            renameFile host settings file confirmedName True
              (w'\<lparr>notices := notices w' @ [''Format conversion failed: '' @ msg]\<rparr>))
      in case compressToFormat compressBlob now file selectedFormat w of
           (None, w1) \<Rightarrow> fallback ''Compression failed'' w1
         | (Some compressedFile, w1) \<Rightarrow>
            (let nameWithNewExt = replaceLastExtension confirmedName @ ''.'' @ selectedFormat
             in case deduplicateNewName host settings nameWithNewExt
                       (map path_basename (adapter_list (vault w1) (parent_path compressedFile))) of
                  Inl e \<Rightarrow> fallback (message_of host (dupNameRegexText settings nameWithNewExt)) w1
                | Inr r \<Rightarrow>
                   (let finalPath = path_join (parent_path compressedFile) (name r)
                    in case fileManager_renameFile (vault w1) (file_path compressedFile) finalPath of
                         Inl err \<Rightarrow> fallback err w1
                       | Inr v \<Rightarrow>
                           (let w2 = w1\<lparr>vault := v,
                                  events := events w1 @ [Renamed (file_path compressedFile) finalPath]\<rparr>
                            in if disableRenameNotice settings then (None, w2)
                               else (None, w2\<lparr>notices := notices w2
                                       @ [''Converted '' @ file_name file @ '' to '' @ name r]\<rparr>)))))"

section \<open>Example files\<close>

text \<open>Files for the worked examples: a pasted image, a dropped document and the note they go into.\<close>

definition pasted_png :: TFile where
  "pasted_png =
     \<lparr> file_name = ''Pasted image 20240101.png'', file_basename = ''Pasted image 20240101'',
       file_extension = ''png'', file_path = ''notes/Pasted image 20240101.png'',
       parent_path = ''notes'', parent_name = ''notes'', ctime = 5000 \<rparr>"

definition dropped_pdf :: TFile where
  "dropped_pdf =
     \<lparr> file_name = ''report.pdf'', file_basename = ''report'', file_extension = ''pdf'',
       file_path = ''notes/report.pdf'', parent_path = ''notes'', parent_name = ''notes'',
       ctime = 5000 \<rparr>"

definition trip_note :: TFile where
  "trip_note =
     \<lparr> file_name = ''trip.md'', file_basename = ''trip'', file_extension = ''md'',
       file_path = ''notes/trip.md'', parent_path = ''notes'', parent_name = ''notes'',
       ctime = 1000 \<rparr>"

text \<open>What \<^verbatim>\<open>renderTemplate\<close> returns for the default pattern \<^verbatim>\<open>{{fileName}}\<close>.\<close>

definition render_fileName :: "string \<Rightarrow> RenderVars \<Rightarrow> (string \<rightharpoonup> string) option \<Rightarrow> string" where
  "render_fileName pattern vars fm = fileName vars"

text \<open>
  What it returns for the pattern \<^verbatim>\<open>{{imageNameKey}}-{{firstHeading}}-{{dirName}}\<close>, and a
  note whose cache has a frontmatter key and headings.
\<close>

definition render_key_heading_dir ::
    "string \<Rightarrow> RenderVars \<Rightarrow> (string \<rightharpoonup> string) option \<Rightarrow> string" where
  "render_key_heading_dir pattern vars fm =
     imageNameKey vars @ ''-'' @ firstHeading vars @ ''-'' @ dirName vars"

definition trip_cache :: FileCache where
  "trip_cache =
     \<lparr> frontmatter = Some [''imageNameKey'' \<mapsto> ''foo''],
       headings = Some [\<lparr> heading = ''Packing'', level = 2 \<rparr>, \<lparr> heading = ''Trip'', level = 1 \<rparr>],
       embeds = Some [''shot.png'', ''gone.png'', ''shot.png''] \<rparr>"

text \<open>
  A host for the worked examples.  Their patterns are inside the fragment, so that its
  answers are never asked for; it is the host that knows no pattern outside the fragment.
\<close>

definition plain_host :: RegExpHost where
  "plain_host =
     \<lparr> exec_of = (\<lambda>pattern. None), remover_of = (\<lambda>pattern. None),
       message_of = (\<lambda>pattern. ''Invalid regular expression'') \<rparr>"

text \<open>
  Worlds for the worked examples of renaming and conversion. In \<^verbatim>\<open>crowded_world\<close> the note
  folder already holds a WebP file with the stem of the PNG file; in \<^verbatim>\<open>batch_world\<close> it holds
  one image, and \<^verbatim>\<open>gone_png\<close> is a file object whose file has left the vault.
\<close>

definition shot_png :: TFile where
  "shot_png = tfile_at ''notes/shot.png'' 5000"


definition crowded_world :: World where
  "crowded_world =
     \<lparr> vault = [(''notes/trip.md'', ''# Trip''), (''notes/shot.png'', ''PNG bytes''),
                (''notes/shot.webp'', ''older WebP bytes'')],
       notices = [], events = [], isProcessingCompression = False, hasEditor = True \<rparr>"


text \<open>An encoder that succeeds for every format, standing for \<^verbatim>\<open>compressBlob\<close>.\<close>

definition encode_ok :: "string \<Rightarrow> string \<Rightarrow> string option" where
  "encode_ok bytes format = Some (''re-encoded as '' @ format)"








text \<open>The crowded world once the PNG file has been deleted.\<close>

definition conversion_lost :: World where
  "conversion_lost =
     crowded_world\<lparr>vault := [(''notes/trip.md'', ''# Trip''), (''notes/shot.webp'', ''older WebP bytes'')],
       events := [Deleted ''notes/shot.png'']\<rparr>"

section \<open>Properties of the format selection\<close>

text \<open>
  C5.  The format selection returns the original extension when compression is
  disabled; otherwise the configured output format when it is not \<^verbatim>\<open>auto\<close>; otherwise,
  with smart selection, the first available format in the order AVIF, WebP, JPG, where
  AVIF is never chosen for a \<^verbatim>\<open>gif\<close> source and JPG is chosen when the probe supports
  neither AVIF nor WebP; otherwise the generic fallback \<^verbatim>\<open>webp\<close>.
\<close>

theorem getOptimalDefaultFormat_policy:
  "(\<not> enableCompression s \<longrightarrow> getOptimalDefaultFormat s p ext = ext) \<and>
   (enableCompression s \<and> outputFormat s \<noteq> ''auto'' \<longrightarrow>
      getOptimalDefaultFormat s p ext = outputFormat s) \<and>
   (enableCompression s \<and> outputFormat s = ''auto'' \<and> smartFormatSelection s \<longrightarrow>
      Some (getOptimalDefaultFormat s p ext) = firstAvailable (smartCandidates p ext) \<and>
      (ext = ''gif'' \<longrightarrow> getOptimalDefaultFormat s p ext \<noteq> ''avif'') \<and>
      (getOptimalDefaultFormat s p ext = ''avif'' \<longrightarrow> supportsAvif p) \<and>
      (getOptimalDefaultFormat s p ext = ''webp'' \<longrightarrow> supportsWebp p) \<and>
      (\<not> supportsAvif p \<and> \<not> supportsWebp p \<longrightarrow> getOptimalDefaultFormat s p ext = ''jpg'')) \<and>
   (enableCompression s \<and> outputFormat s = ''auto'' \<and> \<not> smartFormatSelection s \<longrightarrow>
      getOptimalDefaultFormat s p ext = ''webp'')"
  by (simp add: getOptimalDefaultFormat_def firstAvailable_def smartCandidates_def)

theorem getOptimalDefaultFormat_policy_witness:
  "getOptimalDefaultFormat DEFAULT_SETTINGS \<lparr>supportsAvif = False, supportsWebp = False\<rparr> ''png'' = ''jpg'' \<and>
   getOptimalDefaultFormat DEFAULT_SETTINGS \<lparr>supportsAvif = True, supportsWebp = True\<rparr> ''gif'' = ''webp'' \<and>
   getOptimalDefaultFormat DEFAULT_SETTINGS \<lparr>supportsAvif = True, supportsWebp = False\<rparr> ''png'' = ''avif'' \<and>
   getOptimalDefaultFormat (DEFAULT_SETTINGS\<lparr>enableCompression := False\<rparr>)
     \<lparr>supportsAvif = True, supportsWebp = True\<rparr> ''png'' = ''png'' \<and>
   getOptimalDefaultFormat (DEFAULT_SETTINGS\<lparr>outputFormat := ''jpg''\<rparr>)
     \<lparr>supportsAvif = True, supportsWebp = True\<rparr> ''png'' = ''jpg'' \<and>
   getOptimalDefaultFormat (DEFAULT_SETTINGS\<lparr>smartFormatSelection := False\<rparr>)
     \<lparr>supportsAvif = False, supportsWebp = False\<rparr> ''png'' = ''webp''"
  using getOptimalDefaultFormat_policy
    [of DEFAULT_SETTINGS "\<lparr>supportsAvif = False, supportsWebp = False\<rparr>" "''png''"]
    getOptimalDefaultFormat_policy
    [of DEFAULT_SETTINGS "\<lparr>supportsAvif = True, supportsWebp = True\<rparr>" "''gif''"]
    getOptimalDefaultFormat_policy
    [of DEFAULT_SETTINGS "\<lparr>supportsAvif = True, supportsWebp = False\<rparr>" "''png''"]
    getOptimalDefaultFormat_policy
    [of "DEFAULT_SETTINGS\<lparr>enableCompression := False\<rparr>"
        "\<lparr>supportsAvif = True, supportsWebp = True\<rparr>" "''png''"]
    getOptimalDefaultFormat_policy
    [of "DEFAULT_SETTINGS\<lparr>outputFormat := ''jpg''\<rparr>"
        "\<lparr>supportsAvif = True, supportsWebp = True\<rparr>" "''png''"]
    getOptimalDefaultFormat_policy
    [of "DEFAULT_SETTINGS\<lparr>smartFormatSelection := False\<rparr>"
        "\<lparr>supportsAvif = False, supportsWebp = False\<rparr>" "''png''"]
  by (simp add: DEFAULT_SETTINGS_def firstAvailable_def smartCandidates_def)

section \<open>The numbering rule, compiled\<close>

text \<open>
  The pattern text of the numbering rule lexes and parses to \<^const>\<open>dup_items\<close> when the
  extension is plain text: \<^const>\<open>escapeRegExp\<close> makes every character of the stem and of the
  delimiter a literal.
\<close>

lemma cons_ok_simps [simp]:
  "cons_ok x (Inr xs) = Inr (x # xs)" "cons_ok x (Inl e) = Inl e"
  by (simp_all add: cons_ok_def)

lemma not_syntax_char:
  "c \<notin> set syntax_chars \<Longrightarrow>
     c \<noteq> backslash \<and> c \<noteq> CHR ''('' \<and> c \<noteq> CHR '')'' \<and> c \<noteq> CHR ''^'' \<and> c \<noteq> CHR ''$'' \<and>
     c \<noteq> CHR ''*'' \<and> c \<noteq> CHR ''+'' \<and> c \<noteq> CHR ''?'' \<and> c \<noteq> CHR ''|'' \<and> c \<noteq> CHR ''['' \<and>
     c \<noteq> CHR ''.'' \<and> c \<noteq> CHR ''{''"
  by (auto simp: syntax_chars_def)

lemma rx_lex_plain_char:
  "c \<notin> set syntax_chars \<Longrightarrow> rx_lex LNormal (c # cs) = cons_ok (TChar c) (rx_lex LNormal cs)"
  using not_syntax_char [of c] by simp

lemma rx_lex_escaped_char:
  "c \<in> set syntax_chars \<Longrightarrow>
     rx_lex LNormal (backslash # c # cs) = cons_ok (TChar c) (rx_lex LNormal cs)"
  by (auto simp: syntax_chars_def backslash_def)

lemma rx_lex_escapeRegExp:
  "rx_lex LNormal rest = Inr ts \<Longrightarrow>
     rx_lex LNormal (escapeRegExp s @ rest) = Inr (map TChar s @ ts)"
proof (induction s)
  case Nil
  then show ?case by (simp add: escapeRegExp_def)
next
  case (Cons c s)
  have tl: "rx_lex LNormal (escapeRegExp s @ rest) = Inr (map TChar s @ ts)"
    using Cons by simp
  show ?case
  proof (cases "c \<in> set syntax_chars")
    case True
    have "escapeRegExp (c # s) @ rest = backslash # c # (escapeRegExp s @ rest)"
      using True by (simp add: escapeRegExp_def)
    then show ?thesis using rx_lex_escaped_char [OF True] tl by simp
  next
    case False
    have "escapeRegExp (c # s) @ rest = c # (escapeRegExp s @ rest)"
      using False by (simp add: escapeRegExp_def)
    then show ?thesis using rx_lex_plain_char [OF False] tl by simp
  qed
qed

lemma rx_lex_plain_text:
  "plain_text s \<Longrightarrow> rx_lex LNormal rest = Inr ts \<Longrightarrow>
     rx_lex LNormal (s @ rest) = Inr (map TChar s @ ts)"
proof (induction s)
  case Nil
  then show ?case by simp
next
  case (Cons c s)
  then have c: "c \<notin> set syntax_chars" and s: "plain_text s"
    by (simp_all add: plain_text_def)
  show ?case using rx_lex_plain_char [OF c] Cons.IH [OF s Cons.prems(2)] by simp
qed

lemma rx_items_lits:
  "rx_items d seen rest = Inr r \<Longrightarrow> (case rest of [] \<Rightarrow> True | t # _ \<Rightarrow> \<not> is_quant t) \<Longrightarrow>
     rx_items d seen (map TChar s @ rest) = Inr (lits s @ r)"
proof (induction s)
  case Nil
  then show ?case by (simp add: lits_def)
next
  case (Cons c s)
  have IH: "rx_items d seen (map TChar s @ rest) = Inr (lits s @ r)"
    using Cons by simp
  show ?case
  proof (cases "map TChar s @ rest")
    case Nil
    then show ?thesis using IH by (simp add: lits_def)
  next
    case (Cons t ts)
    have "\<not> is_quant t"
      using Cons Cons.prems(2) \<open>case rest of [] \<Rightarrow> True | t # x \<Rightarrow> \<not> is_quant t\<close>
      by (cases s) (auto split: list.splits)
    then show ?thesis using IH Cons by (simp add: lits_def)
  qed
qed


lemma rx_lex_fixed:
  "rx_lex LNormal (CHR ''^'' # cs) = cons_ok TCaret (rx_lex LNormal cs)"
  "rx_lex LNormal (CHR ''$'' # cs) = cons_ok TDollar (rx_lex LNormal cs)"
  "rx_lex LNormal (CHR '')'' # cs) = cons_ok TClose (rx_lex LNormal cs)"
  "rx_lex LNormal (backslash # CHR ''d'' # CHR ''+'' # cs) = cons_ok TDigit (cons_ok TPlus (rx_lex LNormal cs))"
  "rx_lex LNormal (backslash # CHR ''.'' # cs) = cons_ok (TChar CHR ''.'') (rx_lex LNormal cs)"
  "rx_lex LNormal (''(?<number>'' @ cs) = cons_ok (TOpen ''number'') (rx_lex LNormal cs)"
  "rx_lex LNormal (''(?<name>'' @ cs) = cons_ok (TOpen ''name'') (rx_lex LNormal cs)"
  by (simp_all add: backslash_def syntax_chars_def valid_name_def ident_start_def is_digit_def)

lemma rx_lex_dupNamePattern:
  assumes "plain_text ext"
  shows "rx_lex LNormal (dupNamePattern settings stm ext) =
     Inr (if dupNumberAtStart settings then
            [TCaret, TOpen ''number'', TDigit, TPlus, TClose] @ map TChar (dupNumberDelimiter settings)
              @ [TOpen ''name''] @ map TChar stm @ [TClose, TChar CHR ''.''] @ map TChar ext @ [TDollar]
          else
            [TCaret, TOpen ''name''] @ map TChar stm @ [TClose] @ map TChar (dupNumberDelimiter settings)
              @ [TOpen ''number'', TDigit, TPlus, TClose, TChar CHR ''.''] @ map TChar ext @ [TDollar])"
proof -
  have e: "rx_lex LNormal (ext @ ''$'') = Inr (map TChar ext @ [TDollar])"
    by (rule rx_lex_plain_text [OF assms]) (simp add: backslash_def)
  have dot: "rx_lex LNormal (backslash # CHR ''.'' # ext @ ''$'')
      = Inr (TChar CHR ''.'' # map TChar ext @ [TDollar])"
    using e by (simp only: rx_lex_fixed(5) cons_ok_simps)
  show ?thesis
  proof (cases "dupNumberAtStart settings")
    case True
    have a: "rx_lex LNormal (CHR '')'' # backslash # CHR ''.'' # ext @ ''$'')
        = Inr (TClose # TChar CHR ''.'' # map TChar ext @ [TDollar])"
      using dot by (simp only: rx_lex_fixed(3) cons_ok_simps)
    have b: "rx_lex LNormal (escapeRegExp stm @ CHR '')'' # backslash # CHR ''.'' # ext @ ''$'')
        = Inr (map TChar stm @ TClose # TChar CHR ''.'' # map TChar ext @ [TDollar])"
      by (rule rx_lex_escapeRegExp [OF a])
    have c: "rx_lex LNormal (''(?<name>'' @ escapeRegExp stm @ CHR '')'' # backslash # CHR ''.'' # ext @ ''$'')
        = Inr (TOpen ''name'' # map TChar stm @ TClose # TChar CHR ''.'' # map TChar ext @ [TDollar])"
      using b by (simp only: rx_lex_fixed(7) cons_ok_simps)
    have d: "rx_lex LNormal (escapeRegExp (dupNumberDelimiter settings)
          @ ''(?<name>'' @ escapeRegExp stm @ CHR '')'' # backslash # CHR ''.'' # ext @ ''$'')
        = Inr (map TChar (dupNumberDelimiter settings)
            @ TOpen ''name'' # map TChar stm @ TClose # TChar CHR ''.'' # map TChar ext @ [TDollar])"
      by (rule rx_lex_escapeRegExp [OF c])
    have f: "rx_lex LNormal (CHR '')'' # escapeRegExp (dupNumberDelimiter settings)
          @ ''(?<name>'' @ escapeRegExp stm @ CHR '')'' # backslash # CHR ''.'' # ext @ ''$'')
        = Inr (TClose # map TChar (dupNumberDelimiter settings)
            @ TOpen ''name'' # map TChar stm @ TClose # TChar CHR ''.'' # map TChar ext @ [TDollar])"
      using d by (simp only: rx_lex_fixed(3) cons_ok_simps)
    have g: "rx_lex LNormal (backslash # CHR ''d'' # CHR ''+'' # CHR '')'' # escapeRegExp (dupNumberDelimiter settings)
          @ ''(?<name>'' @ escapeRegExp stm @ CHR '')'' # backslash # CHR ''.'' # ext @ ''$'')
        = Inr (TDigit # TPlus # TClose # map TChar (dupNumberDelimiter settings)
            @ TOpen ''name'' # map TChar stm @ TClose # TChar CHR ''.'' # map TChar ext @ [TDollar])"
      using f by (simp only: rx_lex_fixed(4) cons_ok_simps)
    have h: "rx_lex LNormal (''(?<number>'' @ backslash # CHR ''d'' # CHR ''+'' # CHR '')'' # escapeRegExp (dupNumberDelimiter settings)
          @ ''(?<name>'' @ escapeRegExp stm @ CHR '')'' # backslash # CHR ''.'' # ext @ ''$'')
        = Inr (TOpen ''number'' # TDigit # TPlus # TClose # map TChar (dupNumberDelimiter settings)
            @ TOpen ''name'' # map TChar stm @ TClose # TChar CHR ''.'' # map TChar ext @ [TDollar])"
      using g by (simp only: rx_lex_fixed(6) cons_ok_simps)
    have i: "rx_lex LNormal (CHR ''^'' # ''(?<number>'' @ backslash # CHR ''d'' # CHR ''+'' # CHR '')'' # escapeRegExp (dupNumberDelimiter settings)
          @ ''(?<name>'' @ escapeRegExp stm @ CHR '')'' # backslash # CHR ''.'' # ext @ ''$'')
        = Inr (TCaret # TOpen ''number'' # TDigit # TPlus # TClose # map TChar (dupNumberDelimiter settings)
            @ TOpen ''name'' # map TChar stm @ TClose # TChar CHR ''.'' # map TChar ext @ [TDollar])"
      using h by (simp only: rx_lex_fixed(1) cons_ok_simps)
    show ?thesis using True i by (simp add: dupNamePattern_def)
  next
    case False
    have a: "rx_lex LNormal (''(?<number>'' @ backslash # CHR ''d'' # CHR ''+'' # CHR '')'' # backslash # CHR ''.'' # ext @ ''$'')
        = Inr (TOpen ''number'' # TDigit # TPlus # TClose # TChar CHR ''.'' # map TChar ext @ [TDollar])"
      using dot by (simp only: rx_lex_fixed cons_ok_simps)
    have b: "rx_lex LNormal (escapeRegExp (dupNumberDelimiter settings) @ ''(?<number>'' @ backslash # CHR ''d'' # CHR ''+'' # CHR '')'' # backslash # CHR ''.'' # ext @ ''$'')
        = Inr (map TChar (dupNumberDelimiter settings) @ TOpen ''number'' # TDigit # TPlus # TClose # TChar CHR ''.'' # map TChar ext @ [TDollar])"
      by (rule rx_lex_escapeRegExp [OF a])
    have c: "rx_lex LNormal (CHR '')'' # escapeRegExp (dupNumberDelimiter settings) @ ''(?<number>'' @ backslash # CHR ''d'' # CHR ''+'' # CHR '')'' # backslash # CHR ''.'' # ext @ ''$'')
        = Inr (TClose # map TChar (dupNumberDelimiter settings) @ TOpen ''number'' # TDigit # TPlus # TClose # TChar CHR ''.'' # map TChar ext @ [TDollar])"
      using b by (simp only: rx_lex_fixed(3) cons_ok_simps)
    have d: "rx_lex LNormal (escapeRegExp stm @ CHR '')'' # escapeRegExp (dupNumberDelimiter settings) @ ''(?<number>'' @ backslash # CHR ''d'' # CHR ''+'' # CHR '')'' # backslash # CHR ''.'' # ext @ ''$'')
        = Inr (map TChar stm @ TClose # map TChar (dupNumberDelimiter settings) @ TOpen ''number'' # TDigit # TPlus # TClose # TChar CHR ''.'' # map TChar ext @ [TDollar])"
      by (rule rx_lex_escapeRegExp [OF c])
    have f: "rx_lex LNormal (CHR ''^'' # ''(?<name>'' @ escapeRegExp stm @ CHR '')'' # escapeRegExp (dupNumberDelimiter settings) @ ''(?<number>'' @ backslash # CHR ''d'' # CHR ''+'' # CHR '')'' # backslash # CHR ''.'' # ext @ ''$'')
        = Inr (TCaret # TOpen ''name'' # map TChar stm @ TClose # map TChar (dupNumberDelimiter settings) @ TOpen ''number'' # TDigit # TPlus # TClose # TChar CHR ''.'' # map TChar ext @ [TDollar])"
      using d by (simp only: rx_lex_fixed(1) rx_lex_fixed(7) cons_ok_simps)
    show ?thesis using False f by (simp add: dupNamePattern_def)
  qed
qed


lemma lits_append: "lits (a @ b) = lits a @ lits b"
  by (simp add: lits_def)

lemma lits_Cons: "lits (c # s) = Atom (Chr c) One # lits s"
  by (simp add: lits_def)

lemma lits_Nil: "lits [] = []"
  by (simp add: lits_def)

lemma rx_items_tail:
  "rx_items 0 seen (TChar CHR ''.'' # map TChar ext @ [TDollar])
     = Inr (lits (''.'' @ ext) @ [Eol])"
proof -
  have "rx_items 0 seen (map TChar (CHR ''.'' # ext) @ [TDollar]) = Inr (lits (CHR ''.'' # ext) @ [Eol])"
    by (rule rx_items_lits) simp_all
  then show ?thesis by simp
qed

lemma rx_items_suffix_mode:
  "rx_items 0 [] ([TCaret, TOpen ''name''] @ map TChar stm @ [TClose] @ map TChar delim
       @ [TOpen ''number'', TDigit, TPlus, TClose, TChar CHR ''.''] @ map TChar ext @ [TDollar])
   = Inr ([Bol, Open ''name''] @ lits stm @ [Close] @ lits delim
       @ [Open ''number'', Atom Dig Plus, Close] @ lits (''.'' @ ext) @ [Eol])"
proof -
  have a: "rx_items (Suc 0) [''number'', ''name'']
             (TDigit # TPlus # TClose # TChar CHR ''.'' # map TChar ext @ [TDollar])
           = Inr (Atom Dig Plus # Close # lits (''.'' @ ext) @ [Eol])"
    using rx_items_tail [of "[''number'', ''name'']" ext] by simp
  have b: "rx_items 0 [''name'']
             (TOpen ''number'' # TDigit # TPlus # TClose # TChar CHR ''.'' # map TChar ext @ [TDollar])
           = Inr (Open ''number'' # Atom Dig Plus # Close # lits (''.'' @ ext) @ [Eol])"
    using a by simp
  have c: "rx_items 0 [''name'']
             (map TChar delim @ TOpen ''number'' # TDigit # TPlus # TClose # TChar CHR ''.'' # map TChar ext @ [TDollar])
           = Inr (lits delim @ Open ''number'' # Atom Dig Plus # Close # lits (''.'' @ ext) @ [Eol])"
    by (rule rx_items_lits [OF b]) simp
  have d: "rx_items (Suc 0) [''name'']
             (TClose # map TChar delim @ TOpen ''number'' # TDigit # TPlus # TClose # TChar CHR ''.'' # map TChar ext @ [TDollar])
           = Inr (Close # lits delim @ Open ''number'' # Atom Dig Plus # Close # lits (''.'' @ ext) @ [Eol])"
    using c by (cases delim) simp_all
  have e: "rx_items (Suc 0) [''name'']
             (map TChar stm @ TClose # map TChar delim @ TOpen ''number'' # TDigit # TPlus # TClose # TChar CHR ''.'' # map TChar ext @ [TDollar])
           = Inr (lits stm @ Close # lits delim @ Open ''number'' # Atom Dig Plus # Close # lits (''.'' @ ext) @ [Eol])"
    by (rule rx_items_lits [OF d]) simp
  show ?thesis using e by simp
qed

lemma rx_items_prefix_mode:
  "rx_items 0 [] ([TCaret, TOpen ''number'', TDigit, TPlus, TClose] @ map TChar delim
       @ [TOpen ''name''] @ map TChar stm @ [TClose, TChar CHR ''.''] @ map TChar ext @ [TDollar])
   = Inr ([Bol, Open ''number'', Atom Dig Plus, Close] @ lits delim
       @ [Open ''name''] @ lits stm @ [Close] @ lits (''.'' @ ext) @ [Eol])"
proof -
  have a: "rx_items (Suc 0) [''name'', ''number'']
             (TClose # TChar CHR ''.'' # map TChar ext @ [TDollar])
           = Inr (Close # lits (''.'' @ ext) @ [Eol])"
    using rx_items_tail [of "[''name'', ''number'']" ext] by simp
  have b: "rx_items (Suc 0) [''name'', ''number'']
             (map TChar stm @ TClose # TChar CHR ''.'' # map TChar ext @ [TDollar])
           = Inr (lits stm @ Close # lits (''.'' @ ext) @ [Eol])"
    by (rule rx_items_lits [OF a]) simp
  have c: "rx_items 0 [''number'']
             (TOpen ''name'' # map TChar stm @ TClose # TChar CHR ''.'' # map TChar ext @ [TDollar])
           = Inr (Open ''name'' # lits stm @ Close # lits (''.'' @ ext) @ [Eol])"
    using b by simp
  have d: "rx_items 0 [''number'']
             (map TChar delim @ TOpen ''name'' # map TChar stm @ TClose # TChar CHR ''.'' # map TChar ext @ [TDollar])
           = Inr (lits delim @ Open ''name'' # lits stm @ Close # lits (''.'' @ ext) @ [Eol])"
    by (rule rx_items_lits [OF c]) simp
  have e: "rx_items (Suc 0) [''number'']
             (TClose # map TChar delim @ TOpen ''name'' # map TChar stm @ TClose # TChar CHR ''.'' # map TChar ext @ [TDollar])
           = Inr (Close # lits delim @ Open ''name'' # lits stm @ Close # lits (''.'' @ ext) @ [Eol])"
    using d by (cases delim) simp_all
  show ?thesis using e by simp
qed

lemma rx_compile_dupNamePattern:
  assumes "plain_text ext"
  shows "rx_compile (dupNamePattern settings stm ext) = Inr (dup_items settings stm ext)"
  using rx_items_suffix_mode [of stm "dupNumberDelimiter settings" ext]
    rx_items_prefix_mode [of "dupNumberDelimiter settings" stm ext]
  by (auto simp: rx_compile_def rx_lex_dupNamePattern [OF assms] dup_items_def)


declare rx_scan.simps [simp del]

lemma rx_run_Star_Nil:
  "rx_run (Atom a Star # r) b [] opened caps = rx_run r b [] opened caps"
  by (subst rx_run.simps(8)) (simp only: list.case append_Nil)

lemma rx_run_Star_Cons:
  "rx_run (Atom a Star # r) b (x # xs) opened caps =
     (if accepts a x then rx_run (Atom a Star # r) False xs (feed x opened) caps else [])
     @ rx_run r b (x # xs) opened caps"
  by (subst rx_run.simps(8)) (simp only: list.case)

lemma rx_run_Plus_Nil:
  "rx_run (Atom a Plus # r) b [] opened caps = []"
  by (subst rx_run.simps(9)) (simp only: list.case)

lemma rx_run_Plus_Cons:
  "rx_run (Atom a Plus # r) b (x # xs) opened caps =
     (if accepts a x then rx_run (Atom a Star # r) False xs (feed x opened) caps else [])"
  by (subst rx_run.simps(9)) (simp only: list.case)

lemma rx_run_Opt_Nil:
  "rx_run (Atom a Opt # r) b [] opened caps = rx_run r b [] opened caps"
  by (subst rx_run.simps(7)) (simp only: list.case append_Nil)

lemma rx_run_Opt_Cons:
  "rx_run (Atom a Opt # r) b (x # xs) opened caps =
     (if accepts a x then rx_run r False xs (feed x opened) caps else [])
     @ rx_run r b (x # xs) opened caps"
  by (subst rx_run.simps(7)) (simp only: list.case)

declare rx_run.simps(7,8,9) [simp del]

lemmas rx_run_quant = rx_run_Star_Nil rx_run_Star_Cons rx_run_Plus_Nil rx_run_Plus_Cons
  rx_run_Opt_Nil rx_run_Opt_Cons

lemma feeds_Nil [simp]: "feeds [] opened = opened"
  by (simp add: feeds_def)

lemma feeds_feed: "feeds s (feed x opened) = feeds (x # s) opened"
  by (simp add: feeds_def feed_def case_prod_unfold)

lemma feeds_no_group [simp]: "feeds s [] = []"
  by (simp add: feeds_def)

lemma feeds_one_group [simp]: "feeds s [(n, t)] = [(n, t @ s)]"
  by (simp add: feeds_def)

lemma rx_run_lits:
  "z \<in> set (rx_run (lits s @ r) b inp opened caps) \<longleftrightarrow>
     (\<exists>rest. inp = s @ rest \<and> z \<in> set (rx_run r (b \<and> s = []) rest (feeds s opened) caps))"
proof (induction s arbitrary: inp b opened)
  case Nil
  then show ?case by (simp add: lits_Nil)
next
  case (Cons c s)
  show ?case
  proof (cases inp)
    case Nil
    then show ?thesis by (simp add: lits_Cons)
  next
    case (Cons x xs)
    then show ?thesis
      using Cons.IH [where inp = xs and b = False and opened = "feed x opened"]
      by (auto simp: lits_Cons feeds_feed)
  qed
qed

lemma rx_run_digit_star:
  "z \<in> set (rx_run (Atom Dig Star # r) b inp opened caps) \<longleftrightarrow>
     (\<exists>ds rest. inp = ds @ rest \<and> list_all is_digit ds \<and>
        z \<in> set (rx_run r (b \<and> ds = []) rest (feeds ds opened) caps))"
proof (induction inp arbitrary: b opened)
  case Nil
  then show ?case by (simp add: rx_run_quant)
next
  case (Cons x xs)
  show ?case (is "?L \<longleftrightarrow> ?R")
  proof
    assume ?L
    then consider
        (more) "is_digit x" "z \<in> set (rx_run (Atom Dig Star # r) False xs (feed x opened) caps)"
      | (stop) "z \<in> set (rx_run r b (x # xs) opened caps)"
      by (auto simp: rx_run_quant split: if_splits)
    then show ?R
    proof cases
      case more
      then obtain ds rest where "xs = ds @ rest" "list_all is_digit ds"
        "z \<in> set (rx_run r False rest (feeds ds (feed x opened)) caps)"
        using Cons.IH [of False "feed x opened"] by auto
      then have "x # xs = (x # ds) @ rest \<and> list_all is_digit (x # ds) \<and>
          z \<in> set (rx_run r (b \<and> x # ds = []) rest (feeds (x # ds) opened) caps)"
        using more(1) by (simp add: feeds_feed)
      then show ?thesis by blast
    next
      case stop
      then have "x # xs = [] @ (x # xs) \<and> list_all is_digit [] \<and>
          z \<in> set (rx_run r (b \<and> ([]::string) = []) (x # xs) (feeds [] opened) caps)"
        by simp
      then show ?thesis by blast
    qed
  next
    assume ?R
    then obtain ds rest where d: "x # xs = ds @ rest" "list_all is_digit ds"
      "z \<in> set (rx_run r (b \<and> ds = []) rest (feeds ds opened) caps)"
      by blast
    show ?L
    proof (cases ds)
      case Nil
      then have "rest = x # xs" "z \<in> set (rx_run r b (x # xs) opened caps)"
        using d by auto
      then show ?thesis by (simp add: rx_run_quant)
    next
      case (Cons y ys)
      then have "y = x" "xs = ys @ rest" "is_digit x" "list_all is_digit ys"
        using d by auto
      moreover have "z \<in> set (rx_run r False rest (feeds ys (feed x opened)) caps)"
        using d(3) Cons \<open>y = x\<close> by (simp add: feeds_feed)
      ultimately have "z \<in> set (rx_run (Atom Dig Star # r) False xs (feed x opened) caps)"
        using Cons.IH [of False "feed x opened"] by auto
      then show ?thesis using \<open>is_digit x\<close> by (simp add: rx_run_quant)
    qed
  qed
qed

lemma rx_run_digit_plus:
  "z \<in> set (rx_run (Atom Dig Plus # r) b inp opened caps) \<longleftrightarrow>
     (\<exists>ds rest. inp = ds @ rest \<and> ds \<noteq> [] \<and> list_all is_digit ds \<and>
        z \<in> set (rx_run r False rest (feeds ds opened) caps))"
proof (cases inp)
  case Nil
  then show ?thesis by (simp add: rx_run_quant)
next
  case (Cons x xs)
  show ?thesis (is "?L \<longleftrightarrow> ?R")
  proof
    assume ?L
    then have x: "is_digit x"
      and "z \<in> set (rx_run (Atom Dig Star # r) False xs (feed x opened) caps)"
      using Cons by (auto simp: rx_run_quant split: if_splits)
    then obtain ds rest where "xs = ds @ rest" "list_all is_digit ds"
      "z \<in> set (rx_run r False rest (feeds ds (feed x opened)) caps)"
      using rx_run_digit_star [of z r False xs "feed x opened" caps] by auto
    then have "inp = (x # ds) @ rest \<and> x # ds \<noteq> [] \<and> list_all is_digit (x # ds) \<and>
        z \<in> set (rx_run r False rest (feeds (x # ds) opened) caps)"
      using x Cons by (simp add: feeds_feed)
    then show ?R by blast
  next
    assume ?R
    then obtain ds rest where d: "inp = ds @ rest" "ds \<noteq> []" "list_all is_digit ds"
      "z \<in> set (rx_run r False rest (feeds ds opened) caps)"
      by blast
    then obtain y ys where ds: "ds = y # ys" by (cases ds) auto
    then have "y = x" "xs = ys @ rest" "is_digit x" "list_all is_digit ys"
      using d Cons by auto
    moreover have "z \<in> set (rx_run r False rest (feeds ys (feed x opened)) caps)"
      using d(4) ds \<open>y = x\<close> by (simp add: feeds_feed)
    ultimately have "z \<in> set (rx_run (Atom Dig Star # r) False xs (feed x opened) caps)"
      using rx_run_digit_star [of z r False xs "feed x opened" caps] by auto
    then show ?L using \<open>is_digit x\<close> Cons by (simp add: rx_run_quant)
  qed
qed

section \<open>Matching the numbering rule\<close>

text \<open>
  A sibling matches the compiled rule exactly when it is the stem, the delimiter, a run
  of digits, a dot and the extension, letter for letter (the number first with
  \<^verbatim>\<open>dupNumberAtStart\<close>); the group \<^verbatim>\<open>number\<close> is then the run of digits.
\<close>

lemma between_Some_iff: "between pre post s = Some m \<longleftrightarrow> s = pre @ m @ post"
proof
  assume "between pre post s = Some m"
  then have len: "length pre + length post \<le> length s"
    and pre: "take (length pre) s = pre"
    and post: "drop (length s - length post) s = post"
    and m: "m = take (length s - length pre - length post) (drop (length pre) s)"
    by (simp_all add: between_def split: if_splits)
  have "length s - length pre - length post + length pre = length s - length post"
    using len by arith
  then have "drop (length s - length pre - length post) (drop (length pre) s) = post"
    using post by (simp only: drop_drop)
  then have "drop (length pre) s = m @ post"
    using m append_take_drop_id [of "length s - length pre - length post" "drop (length pre) s"]
    by simp
  then show "s = pre @ m @ post"
    using pre append_take_drop_id [of "length pre" s] by simp
next
  assume "s = pre @ m @ post"
  then show "between pre post s = Some m" by (simp add: between_def)
qed


lemma spec_numbered_Some_iff:
  "spec_numbered settings stm ext s = Some ds \<longleftrightarrow>
     ds \<noteq> [] \<and> list_all is_digit ds \<and>
     s = (if dupNumberAtStart settings
          then ds @ dupNumberDelimiter settings @ stm @ ''.'' @ ext
          else stm @ dupNumberDelimiter settings @ ds @ ''.'' @ ext)"
proof (cases "dupNumberAtStart settings")
  case True
  show ?thesis
  proof (cases "between [] (dupNumberDelimiter settings @ stm @ ''.'' @ ext) s")
    case None
    then show ?thesis
      using True between_Some_iff [of "[]" "dupNumberDelimiter settings @ stm @ ''.'' @ ext" s ds]
      by (simp add: spec_numbered_def)
  next
    case (Some m)
    then show ?thesis
      using True between_Some_iff [of "[]" "dupNumberDelimiter settings @ stm @ ''.'' @ ext" s m]
      by (auto simp: spec_numbered_def)
  qed
next
  case False
  show ?thesis
  proof (cases "between (stm @ dupNumberDelimiter settings) (''.'' @ ext) s")
    case None
    then show ?thesis
      using False between_Some_iff [of "stm @ dupNumberDelimiter settings" "''.'' @ ext" s ds]
      by (simp add: spec_numbered_def)
  next
    case (Some m)
    then show ?thesis
      using False between_Some_iff [of "stm @ dupNumberDelimiter settings" "''.'' @ ext" s m]
      by (auto simp: spec_numbered_def)
  qed
qed


lemma rx_run_tail:
  "z \<in> set (rx_run (lits (CHR ''.'' # ext) @ [Eol]) b inp [] caps) \<longleftrightarrow>
     inp = CHR ''.'' # ext \<and> z = (caps, [])"
  by (simp only: rx_run_lits) auto

lemma rx_run_suffix_mode:
  "z \<in> set (rx_run ([Bol, Open ''name''] @ lits stm @ [Close] @ lits delim
        @ [Open ''number'', Atom Dig Plus, Close] @ lits (''.'' @ ext) @ [Eol]) True s [] []) \<longleftrightarrow>
     (\<exists>ds. s = stm @ delim @ ds @ ''.'' @ ext \<and> ds \<noteq> [] \<and> list_all is_digit ds \<and>
        z = ([(''number'', ds), (''name'', stm)], []))"
proof -
  have a: "\<And>b inp. z \<in> set (rx_run (Atom Dig Plus # Close # lits (CHR ''.'' # ext) @ [Eol])
                b inp [(''number'', [])] [(''name'', stm)]) \<longleftrightarrow>
      (\<exists>ds. inp = ds @ CHR ''.'' # ext \<and> ds \<noteq> [] \<and> list_all is_digit ds \<and>
         z = ([(''number'', ds), (''name'', stm)], []))"
    by (simp add: rx_run_digit_plus rx_run_tail)
  have b: "\<And>b inp. z \<in> set (rx_run (lits delim @ Open ''number'' # Atom Dig Plus # Close
                  # lits (CHR ''.'' # ext) @ [Eol]) b inp [] [(''name'', stm)]) \<longleftrightarrow>
      (\<exists>ds. inp = delim @ ds @ CHR ''.'' # ext \<and> ds \<noteq> [] \<and> list_all is_digit ds \<and>
         z = ([(''number'', ds), (''name'', stm)], []))"
    unfolding rx_run_lits by (simp add: a) blast
  have c: "z \<in> set (rx_run (lits stm @ Close # lits delim @ Open ''number''
                  # Atom Dig Plus # Close # lits (CHR ''.'' # ext) @ [Eol]) True s [(''name'', [])] []) \<longleftrightarrow>
      (\<exists>ds. s = stm @ delim @ ds @ CHR ''.'' # ext \<and> ds \<noteq> [] \<and> list_all is_digit ds \<and>
         z = ([(''number'', ds), (''name'', stm)], []))"
    unfolding rx_run_lits by (simp add: b) blast
  show ?thesis using c by simp
qed


lemma rx_run_prefix_mode:
  "z \<in> set (rx_run ([Bol, Open ''number'', Atom Dig Plus, Close] @ lits delim
        @ [Open ''name''] @ lits stm @ [Close] @ lits (''.'' @ ext) @ [Eol]) True s [] []) \<longleftrightarrow>
     (\<exists>ds. s = ds @ delim @ stm @ ''.'' @ ext \<and> ds \<noteq> [] \<and> list_all is_digit ds \<and>
        z = ([(''name'', stm), (''number'', ds)], []))"
proof -
  have a: "\<And>b inp ds. z \<in> set (rx_run (lits stm @ Close # lits (CHR ''.'' # ext) @ [Eol])
                b inp [(''name'', [])] [(''number'', ds)]) \<longleftrightarrow>
      inp = stm @ CHR ''.'' # ext \<and> z = ([(''name'', stm), (''number'', ds)], [])"
    unfolding rx_run_lits by (simp add: rx_run_tail)
  have b: "\<And>b inp ds. z \<in> set (rx_run (lits delim @ Open ''name'' # lits stm @ Close
                  # lits (CHR ''.'' # ext) @ [Eol]) b inp [] [(''number'', ds)]) \<longleftrightarrow>
      inp = delim @ stm @ CHR ''.'' # ext \<and> z = ([(''name'', stm), (''number'', ds)], [])"
    unfolding rx_run_lits by (simp add: a)
  have c: "z \<in> set (rx_run (Atom Dig Plus # Close # lits delim @ Open ''name'' # lits stm @ Close
                  # lits (CHR ''.'' # ext) @ [Eol]) True s [(''number'', [])] []) \<longleftrightarrow>
      (\<exists>ds. s = ds @ delim @ stm @ CHR ''.'' # ext \<and> ds \<noteq> [] \<and> list_all is_digit ds \<and>
         z = ([(''name'', stm), (''number'', ds)], []))"
    unfolding rx_run_digit_plus by (simp add: b)
  show ?thesis using c by simp
qed

lemma rx_run_dup_items:
  "z \<in> set (rx_run (dup_items settings stm ext) True s [] []) \<longleftrightarrow>
     (\<exists>ds. spec_numbered settings stm ext s = Some ds \<and>
        z = (if dupNumberAtStart settings
             then [(''name'', stm), (''number'', ds)]
             else [(''number'', ds), (''name'', stm)], []))"
proof (cases "dupNumberAtStart settings")
  case True
  then show ?thesis
    unfolding dup_items_def spec_numbered_Some_iff
    using rx_run_prefix_mode [of z "dupNumberDelimiter settings" stm ext s] by auto
next
  case False
  then show ?thesis
    unfolding dup_items_def spec_numbered_Some_iff
    using rx_run_suffix_mode [of z stm "dupNumberDelimiter settings" ext s] by auto
qed


lemma alternatives_none: "Bar \<notin> set r \<Longrightarrow> alternatives r = []"
  by (induction r) auto

lemma rx_any_single: "Bar \<notin> set rx \<Longrightarrow> rx_any rx b inp = rx_run rx b inp [] []"
  by (simp add: rx_any_def alternatives_none)

lemma rx_scan_Bol_False: "Bar \<notin> set r \<Longrightarrow> rx_scan (Bol # r) False inp = None"
proof (induction inp)
  case Nil
  then show ?case by (subst rx_scan.simps) (simp add: rx_any_single)
next
  case (Cons x xs)
  then show ?case by (subst rx_scan.simps) (simp add: rx_any_single)
qed

lemma rx_exec_Bol:
  "Bar \<notin> set r \<Longrightarrow> rx_exec (Bol # r) inp =
     (case rx_run (Bol # r) True inp [] [] of [] \<Rightarrow> None | (groups, rest) # _ \<Rightarrow> Some groups)"
  unfolding rx_exec_def
  by (subst rx_scan.simps) (simp add: rx_scan_Bol_False rx_any_single split: list.splits)

lemma lits_no_Bar: "Bar \<notin> set (lits s)"
  by (auto simp: lits_def)

lemma dup_items_Bol: "\<exists>r. dup_items settings stm ext = Bol # r \<and> Bar \<notin> set r"
  by (simp add: dup_items_def lits_no_Bar)

lemma rx_exec_dup_items:
  "rx_exec (dup_items settings stm ext) s =
     map_option (dup_groups settings stm) (spec_numbered settings stm ext s)"
proof -
  obtain r where r: "dup_items settings stm ext = Bol # r" "Bar \<notin> set r"
    using dup_items_Bol by blast
  define l where "l = rx_run (dup_items settings stm ext) True s [] []"
  have mem: "\<And>z. z \<in> set l \<longleftrightarrow>
      (\<exists>ds. spec_numbered settings stm ext s = Some ds \<and> z = (dup_groups settings stm ds, []))"
    unfolding l_def rx_run_dup_items dup_groups_def by simp
  have ex: "rx_exec (dup_items settings stm ext) s =
      (case l of [] \<Rightarrow> None | (groups, rest) # _ \<Rightarrow> Some groups)"
    unfolding l_def r(1) by (rule rx_exec_Bol [OF r(2)])
  show ?thesis
  proof (cases "spec_numbered settings stm ext s")
    case None
    then have "\<And>z. z \<notin> set l" using mem by simp
    then have "l = []" by (cases l) auto
    then show ?thesis using ex None by simp
  next
    case (Some ds)
    then have all: "\<And>z. z \<in> set l \<longleftrightarrow> z = (dup_groups settings stm ds, [])"
      using mem by simp
    then obtain z zs where l: "l = z # zs" by (cases l) auto
    then have "z \<in> set l" by simp
    then have "z = (dup_groups settings stm ds, [])" using all by blast
    then show ?thesis using ex Some l by simp
  qed
qed

lemma dup_groups_number: "map_of (dup_groups settings stm ds) ''number'' = Some ds"
  by (simp add: dup_groups_def)

lemma takeWhile_all: "list_all P xs \<Longrightarrow> takeWhile P xs = xs"
  by (induction xs) auto

lemma parseInt_digits:
  "ds \<noteq> [] \<Longrightarrow> list_all is_digit ds \<Longrightarrow> parseInt (Some ds) = round_double (digits_val ds)"
  by (simp add: parseInt_def takeWhile_all)

lemma scanSiblings_literal:
  "scanSiblings (rx_exec (dup_items settings stm ext)) newName listed (nums, ex) =
     (nums @ map (\<lambda>ds. round_double (digits_val ds))
         (List.map_filter (spec_numbered settings stm ext) (filter (\<lambda>s. s \<noteq> newName) listed)),
      ex \<or> newName \<in> set listed)"
proof (induction listed arbitrary: nums ex)
  case Nil
  then show ?case by (simp add: map_filter_simps)
next
  case (Cons s listed)
  show ?case
  proof (cases "s = newName")
    case True
    then show ?thesis using Cons by simp
  next
    case False
    show ?thesis
    proof (cases "spec_numbered settings stm ext s")
      case None
      then show ?thesis using False Cons
        by (simp add: rx_exec_dup_items map_filter_simps)
    next
      case (Some ds)
      then have "ds \<noteq> []" "list_all is_digit ds"
        using spec_numbered_Some_iff by blast+
      then show ?thesis using False Cons Some
        by (simp add: rx_exec_dup_items map_filter_simps dup_groups_number parseInt_digits)
    qed
  qed
qed

section \<open>Numbers and names\<close>

lemma digit_char_is_digit: "d < 10 \<Longrightarrow> is_digit (digit_char d)"
proof -
  assume "d < 10"
  then have "d \<in> {0, 1, 2, 3, 4, 5, 6, 7, 8, 9}" by auto
  then show ?thesis
    by (auto simp: digit_char_def is_digit_def)
qed

lemma digit_val_digit_char: "d < 10 \<Longrightarrow> digit_val (digit_char d) = d"
proof -
  assume "d < 10"
  then have "d \<in> {0, 1, 2, 3, 4, 5, 6, 7, 8, 9}" by auto
  then show ?thesis
    by (auto simp: digit_char_def digit_val_def)
qed


lemma show_nat_digits: "list_all is_digit (show_nat n)"
proof (induction n rule: show_nat.induct)
  case (1 n)
  show ?case
  proof (cases "n < 10")
    case True
    then show ?thesis by (subst show_nat.simps) (simp add: digit_char_is_digit)
  next
    case False
    then show ?thesis
      using 1 by (subst show_nat.simps) (simp add: digit_char_is_digit)
  qed
qed

lemma show_nat_not_Nil: "show_nat n \<noteq> []"
  by (subst show_nat.simps) simp

lemma digits_val_snoc: "digits_val (ds @ [c]) = 10 * digits_val ds + digit_val c"
  by (simp add: digits_val_def)

lemma digits_val_show_nat: "digits_val (show_nat n) = n"
proof (induction n rule: show_nat.induct)
  case (1 n)
  show ?case
  proof (cases "n < 10")
    case True
    then show ?thesis
      by (subst show_nat.simps) (simp add: digits_val_def digit_val_digit_char)
  next
    case False
    then have "digits_val (show_nat (n div 10)) = n div 10" using 1 by simp
    then show ?thesis
      using False by (subst show_nat.simps) (simp add: digits_val_snoc digit_val_digit_char)
  qed
qed

lemma bit_length_le: "bit_length n \<le> k \<longleftrightarrow> n < 2 ^ k"
proof (induction n arbitrary: k rule: bit_length.induct)
  case (1 n)
  show ?case
  proof (cases "n = 0")
    case True
    then show ?thesis by (subst bit_length.simps) simp
  next
    case False
    show ?thesis
    proof (cases k)
      case 0
      then show ?thesis using False by (subst bit_length.simps) simp
    next
      case (Suc j)
      have "bit_length n \<le> Suc j \<longleftrightarrow> bit_length (n div 2) \<le> j"
        using False by (subst bit_length.simps) simp
      also have "\<dots> \<longleftrightarrow> n div 2 < 2 ^ j" using 1 [OF False] by simp
      also have "\<dots> \<longleftrightarrow> n < 2 ^ Suc j" by auto
      finally show ?thesis using Suc by simp
    qed
  qed
qed

lemma round_double_small: "n < 2 ^ 53 \<Longrightarrow> round_double n = Num n"
  by (simp add: round_double_def bit_length_le)

lemma js_toString_small: "n < 2 ^ 53 \<Longrightarrow> js_toString (Num n) = show_nat n"
  by (simp add: js_toString_def bit_length_le)

lemma fold_js_max2: "fold js_max2 (map Num ns) (Num n) = Num (fold max ns n)"
  by (induction ns arbitrary: n) (simp_all add: js_max2_def)

lemma fold_max_Max: "fold max ns (n::nat) = Max (set (n # ns))"
  by (simp only: Max.set_eq_fold)

lemma spec_next_number_small:
  assumes "\<forall>n\<in>set ns. n + 1 < 2 ^ 53"
  shows "spec_next_number ns < 2 ^ 53"
proof (cases "ns = []")
  case True
  then show ?thesis by (simp add: spec_next_number_def)
next
  case False
  then have "Max (set ns) \<in> set ns" by (intro Max_in) auto
  then show ?thesis using assms False by (auto simp: spec_next_number_def)
qed

lemma newNumber_Num:
  assumes "\<forall>n\<in>set ns. n + 1 < 2 ^ 53"
  shows "newNumber (map Num ns) = Num (spec_next_number ns)"
proof (cases ns)
  case Nil
  then show ?thesis by (simp add: newNumber_def spec_next_number_def)
next
  case (Cons n ns')
  have "round_double (spec_next_number ns) = Num (spec_next_number ns)"
    by (rule round_double_small [OF spec_next_number_small [OF assms]])
  then show ?thesis using Cons
    by (simp add: newNumber_def spec_next_number_def fold_js_max2 fold_max_Max js_add1_def)
qed

lemma takeWhile_stop:
  "\<forall>x\<in>set xs. P x \<Longrightarrow> \<not> P y \<Longrightarrow> takeWhile P (xs @ y # ys) = xs"
  by (induction xs) auto

lemma path_extension_split:
  assumes "CHR ''.'' \<notin> set ext"
  shows "path_extension (stm @ ''.'' @ ext) = ext"
proof -
  have "takeWhile (\<lambda>c. c \<noteq> CHR ''.'') (rev ext @ CHR ''.'' # rev stm) = rev ext"
    using assms by (intro takeWhile_stop) auto
  then show ?thesis by (simp add: path_extension_def)
qed

lemma slice0_stem: "slice0 (x @ ''.'' @ ext) (int (length (x @ ''.'' @ ext)) - int (length ext) - 1) = x"
  by (simp add: slice0_def)

lemma plain_text_no_dot: "plain_text ext \<Longrightarrow> CHR ''.'' \<notin> set ext"
  by (auto simp: plain_text_def syntax_chars_def list_all_iff)

lemma spec_numbered_candidate: "spec_numbered settings stm ext (stm @ ''.'' @ ext) = None"
proof (cases "spec_numbered settings stm ext (stm @ ''.'' @ ext)")
  case None
  then show ?thesis .
next
  case (Some ds)
  then have ds: "ds \<noteq> []"
    and eq: "stm @ ''.'' @ ext = (if dupNumberAtStart settings
          then ds @ dupNumberDelimiter settings @ stm @ ''.'' @ ext
          else stm @ dupNumberDelimiter settings @ ds @ ''.'' @ ext)"
    using spec_numbered_Some_iff by blast+
  have "length (stm @ ''.'' @ ext) = length (if dupNumberAtStart settings
          then ds @ dupNumberDelimiter settings @ stm @ ''.'' @ ext
          else stm @ dupNumberDelimiter settings @ ds @ ''.'' @ ext)"
    using eq by simp
  then have "length ds = 0" by (simp split: if_splits)
  then show ?thesis using ds by simp
qed

lemma map_filter_skip:
  "f x = None \<Longrightarrow> List.map_filter f (filter (\<lambda>s. s \<noteq> x) l) = List.map_filter f l"
  by (induction l) (auto simp: map_filter_simps split: option.splits)

lemma numberedName_split:
  "n < 2 ^ 53 \<Longrightarrow> numberedName settings stm ext (Num n) =
     (if dupNumberAtStart settings then show_nat n @ dupNumberDelimiter settings @ stm
      else stm @ dupNumberDelimiter settings @ show_nat n) @ ''.'' @ ext"
  by (simp add: numberedName_def js_toString_small)

lemma new_RegExp_dupNamePattern:
  "plain_text ext \<Longrightarrow>
     new_RegExp host (dupNamePattern settings stm ext) = Inr (rx_exec (dup_items settings stm ext))"
  by (simp add: new_RegExp_def rx_compile_dupNamePattern)

lemma deduplicateNewName_plain:
  assumes "plain_text ext"
    and "\<forall>n\<in>set (spec_numbers settings stm ext listed). n + 1 < 2 ^ 53"
  shows "deduplicateNewName host settings (stm @ ''.'' @ ext) listed =
     Inr (if stm @ ''.'' @ ext \<in> set listed \<or> dupNumberAlways settings
          then \<lparr> name = numberedName settings stm ext
                         (Num (spec_next_number (spec_numbers settings stm ext listed))),
                 stem = (if dupNumberAtStart settings
                         then show_nat (spec_next_number (spec_numbers settings stm ext listed))
                                @ dupNumberDelimiter settings @ stm
                         else stm @ dupNumberDelimiter settings
                                @ show_nat (spec_next_number (spec_numbers settings stm ext listed))),
                 extension = ext \<rparr>
          else \<lparr> name = stm @ ''.'' @ ext, stem = stm, extension = ext \<rparr>)"
proof -
  let ?newName = "stm @ ''.'' @ ext"
  let ?N = "spec_next_number (spec_numbers settings stm ext listed)"
  have small: "?N < 2 ^ 53"
    by (rule spec_next_number_small [OF assms(2)])
  have ext: "path_extension ?newName = ext"
    by (rule path_extension_split [OF plain_text_no_dot [OF assms(1)]])
  have stm: "slice0 ?newName (int (length ?newName) - int (length ext) - 1) = stm"
    by (rule slice0_stem)
  have rx: "new_RegExp host (dupNamePattern settings stm ext)
      = Inr (rx_exec (dup_items settings stm ext))"
    by (rule new_RegExp_dupNamePattern [OF assms(1)])
  have exact: "map (\<lambda>ds. round_double (digits_val ds))
        (List.map_filter (spec_numbered settings stm ext) listed)
      = map Num (spec_numbers settings stm ext listed)"
    using assms(2) by (auto simp: spec_numbers_def intro!: round_double_small)
  have scan: "scanSiblings (rx_exec (dup_items settings stm ext)) ?newName listed ([], False) =
      (map Num (spec_numbers settings stm ext listed), ?newName \<in> set listed)"
  proof -
    have "List.map_filter (spec_numbered settings stm ext) (filter (\<lambda>s. s \<noteq> ?newName) listed)
        = List.map_filter (spec_numbered settings stm ext) listed"
      using spec_numbered_candidate [of settings stm ext]
      by (rule map_filter_skip [where f = "spec_numbered settings stm ext"])
    then show ?thesis
      by (simp add: scanSiblings_literal exact)
  qed
  have num: "newNumber (map Num (spec_numbers settings stm ext listed)) = Num ?N"
    by (rule newNumber_Num [OF assms(2)])
  have nstem: "slice0 (numberedName settings stm ext (Num ?N))
       (int (length (numberedName settings stm ext (Num ?N))) - int (length ext) - 1) =
     (if dupNumberAtStart settings then show_nat ?N @ dupNumberDelimiter settings @ stm
      else stm @ dupNumberDelimiter settings @ show_nat ?N)"
    unfolding numberedName_split [OF small] by (rule slice0_stem)
  show ?thesis
    unfolding deduplicateNewName_def Let_def ext stm rx
    by (simp only: sum.case scan prod.case num nstem stm split: if_splits) simp
qed

section \<open>Properties of the duplicate resolution\<close>

lemma spec_numbers_mem:
  "spec_numbered settings stm ext s = Some ds \<Longrightarrow> s \<in> set listed \<Longrightarrow>
     digits_val ds \<in> set (spec_numbers settings stm ext listed)"
  by (force simp: spec_numbers_def List.map_filter_def)

lemma numbered_is_numbered:
  "n < 2 ^ 53 \<Longrightarrow>
     spec_numbered settings stm ext (numberedName settings stm ext (Num n)) = Some (show_nat n)"
  unfolding spec_numbered_Some_iff
  by (simp add: numberedName_def js_toString_small show_nat_not_Nil show_nat_digits)

lemma numberedName_fresh:
  assumes "\<forall>n\<in>set (spec_numbers settings stm ext listed). n + 1 < 2 ^ 53"
  shows "numberedName settings stm ext (Num (spec_next_number (spec_numbers settings stm ext listed)))
     \<notin> set listed"
proof
  let ?ns = "spec_numbers settings stm ext listed"
  let ?N = "spec_next_number ?ns"
  have small: "?N < 2 ^ 53" by (rule spec_next_number_small [OF assms])
  assume "numberedName settings stm ext (Num ?N) \<in> set listed"
  then have "digits_val (show_nat ?N) \<in> set ?ns"
    using spec_numbers_mem [OF numbered_is_numbered [OF small]] by blast
  then have mem: "?N \<in> set ?ns" by (simp add: digits_val_show_nat)
  then have "?ns \<noteq> []" by auto
  then have "?N = Max (set ?ns) + 1" by (simp add: spec_next_number_def)
  moreover have "?N \<le> Max (set ?ns)" using mem by simp
  ultimately show False by simp
qed

lemma new_RegExp_error: "new_RegExp host pattern = Inl e \<Longrightarrow> e = SyntaxError"
  by (auto simp: new_RegExp_def split: sum.splits rx_error.splits option.splits)

lemma deduplicateNewName_returns:
  "(\<exists>r. deduplicateNewName host settings newName listed = Inr r) \<longleftrightarrow>
     new_RegExp host (dupNameRegexText settings newName) \<noteq> Inl SyntaxError"
proof (cases "new_RegExp host (dupNameRegexText settings newName)")
  case (Inl e)
  then have "e = SyntaxError" by (rule new_RegExp_error)
  then show ?thesis using Inl
    by (simp add: deduplicateNewName_def dupNameRegexText_def Let_def)
next
  case (Inr exec)
  then show ?thesis
    by (simp add: deduplicateNewName_def dupNameRegexText_def Let_def split: prod.splits)
qed

text \<open>
  Where the extension has no character that is special in a pattern, the rule does what
  the spec says.  For such a candidate \<open>stem.ext\<close> and a listing whose duplicate numbers
  stay below \<open>2 ^ 53\<close>, where the doubles are the integers, the name returned is no file
  name of the listing; and it is \<open>stem<delim>N.ext\<close> (or \<open>N<delim>stem.ext\<close> with
  \<^verbatim>\<open>dupNumberAtStart\<close>) when the candidate is in the listing or \<^verbatim>\<open>dupNumberAlways\<close> is set,
  \<open>N\<close> being one more than the largest number of the already-numbered siblings, and \<open>1\<close>
  when there is none; otherwise it is the candidate.
\<close>

lemma deduplicateNewName_plain_fresh:
  assumes "plain_text ext"
    and "\<forall>n\<in>set (spec_numbers settings stm ext listed). n + 1 < 2 ^ 53"
  shows "\<exists>r. deduplicateNewName host settings (stm @ ''.'' @ ext) listed = Inr r \<and> name r \<notin> set listed"
  unfolding deduplicateNewName_plain [OF assms]
  using numberedName_fresh [OF assms(2)] by simp

lemma deduplicateNewName_plain_number:
  assumes "plain_text ext"
    and "\<forall>n\<in>set (spec_numbers settings stm ext listed). n + 1 < 2 ^ 53"
  shows "\<exists>r. deduplicateNewName host settings (stm @ ''.'' @ ext) listed = Inr r \<and>
     name r =
       (let ns = spec_numbers settings stm ext listed;
            N = (if ns = [] then 1 else Max (set ns) + 1)
        in if stm @ ''.'' @ ext \<in> set listed \<or> dupNumberAlways settings
           then (if dupNumberAtStart settings
                 then show_nat N @ dupNumberDelimiter settings @ stm @ ''.'' @ ext
                 else stm @ dupNumberDelimiter settings @ show_nat N @ ''.'' @ ext)
           else stm @ ''.'' @ ext)"
proof -
  have "spec_next_number (spec_numbers settings stm ext listed) < 2 ^ 53"
    by (rule spec_next_number_small [OF assms(2)])
  then show ?thesis
    unfolding deduplicateNewName_plain [OF assms]
    by (simp add: numberedName_split spec_next_number_def Let_def)
qed

text \<open>
  C1.  The extension is put into the numbering rule unescaped, and the name returned is
  never checked against the listing.  For the candidate \<^verbatim>\<open>a.c+\<close> the rule is
  \<^verbatim>\<open>^(?<name>a)-(?<number>\d+)\.c+$\<close>, which the sibling \<^verbatim>\<open>a-1.c+\<close> does not match: no
  number is collected, and the name returned is that sibling's, a name of the listing.
\<close>

theorem deduplicateNewName_collision:
  "deduplicateNewName host DEFAULT_SETTINGS ''a.c+'' [''a.c+'', ''a-1.c+'']
     = Inr \<lparr> name = ''a-1.c+'', stem = ''a-1'', extension = ''c+'' \<rparr>
   \<and> ''a-1.c+'' \<in> set [''a.c+'', ''a-1.c+'']"
  by code_simp

text \<open>
  C2.  For the candidate \<^verbatim>\<open>main.c++\<close>, which is in the listing, the rule ends in
  \<^verbatim>\<open>\.c++$\<close>: the second \<^verbatim>\<open>+\<close> has nothing to repeat, the constructor throws, and no name
  is returned, where the spec has \<^verbatim>\<open>main-1.c++\<close>.
\<close>

theorem deduplicateNewName_throws:
  "deduplicateNewName host DEFAULT_SETTINGS ''main.c++'' [''main.c++''] = Inl SyntaxError"
  by code_simp

lemma path_split_dot:
  assumes "CHR ''.'' \<in> set n"
  shows "\<exists>x. n = x @ ''.'' @ path_extension n"
proof -
  let ?P = "\<lambda>c. c \<noteq> CHR ''.''"
  have "dropWhile ?P (rev n) \<noteq> []" using assms by (simp add: dropWhile_eq_Nil_conv)
  then obtain y ys where d: "dropWhile ?P (rev n) = y # ys" by (cases "dropWhile ?P (rev n)") auto
  then have "\<not> ?P y" using hd_dropWhile [of ?P "rev n"] by auto
  then have y: "y = CHR ''.''" by simp
  have "rev n = takeWhile ?P (rev n) @ CHR ''.'' # ys"
    using takeWhile_dropWhile_id [of ?P "rev n"] d y by simp
  then have "rev (rev n) = rev (takeWhile ?P (rev n) @ CHR ''.'' # ys)" by simp
  then have "n = rev ys @ ''.'' @ path_extension n"
    by (simp add: path_extension_def)
  then show ?thesis by blast
qed

lemma slice0_stem_eq:
  "n = x @ ''.'' @ e \<Longrightarrow> slice0 n (int (length n) - int (length e) - 1) = x"
  by (simp add: slice0_def)

text \<open>
  C9.  For a candidate with at least one dot, the result of \<^verbatim>\<open>deduplicateNewName\<close> has
  \<open>name = stem + '.' + extension\<close>, and its extension is what follows the last dot of the
  candidate: duplicate resolution never changes the extension.  There is a result
  whenever the constructor of the numbering rule does not throw.
\<close>

theorem deduplicateNewName_keeps_extension:
  "(deduplicateNewName host settings newName listed = Inr r \<and> CHR ''.'' \<in> set newName \<longrightarrow>
      name r = stem r @ ''.'' @ extension r \<and>
      (\<exists>x. newName = x @ ''.'' @ extension r) \<and> CHR ''.'' \<notin> set (extension r)) \<and>
   ((\<exists>r. deduplicateNewName host settings newName listed = Inr r) \<longleftrightarrow>
      new_RegExp host (dupNameRegexText settings newName) \<noteq> Inl SyntaxError)"
proof (rule conjI, rule impI)
  assume asm: "deduplicateNewName host settings newName listed = Inr r \<and> CHR ''.'' \<in> set newName"
  let ?ext = "path_extension newName"
  let ?stm = "slice0 newName (int (length newName) - int (length ?ext) - 1)"
  obtain x where x: "newName = x @ ''.'' @ ?ext"
    using path_split_dot asm by blast
  have nodot: "CHR ''.'' \<notin> set ?ext"
    unfolding path_extension_def using set_takeWhileD [of "CHR ''.''" "\<lambda>c. c \<noteq> CHR ''.''" "rev newName"]
    by auto
  have stm: "?stm = x"
    by (rule slice0_stem_eq [OF x])
  obtain rx where rx: "new_RegExp host (dupNamePattern settings ?stm ?ext) = Inr rx"
    using asm by (auto simp: deduplicateNewName_def Let_def split: sum.splits)
  obtain nums ex where sc: "scanSiblings rx newName listed ([], False) = (nums, ex)"
    by (cases "scanSiblings rx newName listed ([], False)") auto
  define name' where "name' = (if ex \<or> dupNumberAlways settings
      then numberedName settings ?stm ?ext (newNumber nums) else newName)"
  have r: "r = \<lparr> name = name',
      stem = slice0 name' (int (length name') - int (length ?ext) - 1), extension = ?ext \<rparr>"
    using asm rx sc by (simp add: deduplicateNewName_def Let_def name'_def)
  have "\<exists>y. name' = y @ ''.'' @ ?ext"
  proof (cases "ex \<or> dupNumberAlways settings")
    case True
    then have "name' = numberedName settings ?stm ?ext (newNumber nums)"
      by (simp add: name'_def)
    then show ?thesis by (auto simp: numberedName_def)
  next
    case False
    then show ?thesis using x by (auto simp: name'_def)
  qed
  then obtain y where y: "name' = y @ ''.'' @ ?ext" by blast
  have "slice0 name' (int (length name') - int (length ?ext) - 1) = y"
    by (rule slice0_stem_eq [OF y])
  then show "name r = stem r @ ''.'' @ extension r \<and>
      (\<exists>x. newName = x @ ''.'' @ extension r) \<and> CHR ''.'' \<notin> set (extension r)"
    using r y x nodot by auto
next
  show "(\<exists>r. deduplicateNewName host settings newName listed = Inr r) \<longleftrightarrow>
      new_RegExp host (dupNameRegexText settings newName) \<noteq> Inl SyntaxError"
    by (rule deduplicateNewName_returns)
qed

theorem deduplicateNewName_keeps_extension_witness:
  "deduplicateNewName plain_host DEFAULT_SETTINGS ''Report v1.2 (1)''
       [''Report v1.2 (1)'', ''Report v1-3.2 1'', ''Report v1-7.2 (1)'']
     = Inr \<lparr> name = ''Report v1-4.2 (1)'', stem = ''Report v1-4'', extension = ''2 (1)'' \<rparr> \<and>
   CHR ''.'' \<in> set ''Report v1.2 (1)'' \<and>
   name \<lparr> name = ''Report v1-4.2 (1)'', stem = ''Report v1-4'', extension = ''2 (1)'' \<rparr>
     = stem \<lparr> name = ''Report v1-4.2 (1)'', stem = ''Report v1-4'', extension = ''2 (1)'' \<rparr> @ ''.''
       @ extension \<lparr> name = ''Report v1-4.2 (1)'', stem = ''Report v1-4'', extension = ''2 (1)'' \<rparr> \<and>
   (\<exists>x. ''Report v1.2 (1)'' = x @ ''.''
       @ extension \<lparr> name = ''Report v1-4.2 (1)'', stem = ''Report v1-4'', extension = ''2 (1)'' \<rparr>) \<and>
   CHR ''.'' \<notin> set (extension \<lparr> name = ''Report v1-4.2 (1)'', stem = ''Report v1-4'',
       extension = ''2 (1)'' \<rparr>)"
proof -
  let ?r = "\<lparr> name = ''Report v1-4.2 (1)'', stem = ''Report v1-4'', extension = ''2 (1)'' \<rparr>"
  have h1: "deduplicateNewName plain_host DEFAULT_SETTINGS ''Report v1.2 (1)''
       [''Report v1.2 (1)'', ''Report v1-3.2 1'', ''Report v1-7.2 (1)''] = Inr ?r"
    by code_simp
  have h2: "CHR ''.'' \<in> set ''Report v1.2 (1)''" by simp
  have a: "name ?r = stem ?r @ ''.'' @ extension ?r \<and>
      (\<exists>x. ''Report v1.2 (1)'' = x @ ''.'' @ extension ?r) \<and> CHR ''.'' \<notin> set (extension ?r)"
    by (rule mp [OF conjunct1 [OF deduplicateNewName_keeps_extension] conjI [OF h1 h2]])
  show ?thesis
    by (rule conjI [OF h1 conjI [OF h2 a]])
qed

text \<open>
  C3. The stem and the delimiter are escaped, the extension is put into the numbering rule as
  it is.  An extension that holds \<^verbatim>\<open>|\<close> splits the rule into two alternatives, and the second
  one is not tied to the stem: for the candidate \<^verbatim>\<open>shot.a|b\<close> the rule is
  \<^verbatim>\<open>^(?<name>shot)-(?<number>\d+)\.a|b$\<close>.  The sibling \<^verbatim>\<open>zzb\<close> matches it through \<^verbatim>\<open>b$\<close>,
  no group takes part in the match, \<^verbatim>\<open>parseInt(undefined)\<close> is \<^verbatim>\<open>NaN\<close>, and this value is
  collected from a sibling whose stem is not \<^verbatim>\<open>shot\<close>.  With the candidate itself in the
  listing the name returned is \<^verbatim>\<open>shot-NaN.a|b\<close>.
\<close>

theorem scanSiblings_foreign_stem:
  "map_option (\<lambda>rx. scanSiblings rx ''shot.a|b'' [''zzb''] ([], False))
       (case new_RegExp host (dupNamePattern DEFAULT_SETTINGS ''shot'' ''a|b'') of
          Inl e \<Rightarrow> None | Inr rx \<Rightarrow> Some rx)
     = Some ([NaN], False) \<and>
   deduplicateNewName host DEFAULT_SETTINGS ''shot.a|b'' [''shot.a|b'', ''zzb'']
     = Inr \<lparr> name = ''shot-NaN.a|b'', stem = ''shot-NaN'', extension = ''a|b'' \<rparr>"
  by code_simp

section \<open>Properties of the file-creation handler\<close>

text \<open>
  C10.  The handler starts the rename process only for a file that is not a markdown
  file, was created at most 1000 ms ago, and either has a name starting with
  \<^verbatim>\<open>Pasted image \<close> or falls under \<^verbatim>\<open>handleAllAttachments\<close> with an extension that the
  exclude pattern (when one is configured) does not match.  It never starts it for a
  markdown file, for a file older than 1000 ms, or for a file that is neither.
\<close>

theorem onCreate_never_starts:
  "(onCreate settings regExpTest busy now file = Started f a \<longrightarrow>
      file = AFile f \<and> a = autoRename settings \<and>
      \<not> isMarkdownFile file \<and> now - ctime f \<le> 1000 \<and>
      (isPastedImage file \<or>
       handleAllAttachments settings \<and>
       (excludeExtensionPattern settings = [] \<or>
        regExpTest (excludeExtensionPattern settings) (file_extension f) = Inr False))) \<and>
   (isMarkdownFile file \<longrightarrow> onCreate settings regExpTest busy now file = Ignored) \<and>
   (file = AFile f \<and> now - ctime f > 1000 \<longrightarrow>
      onCreate settings regExpTest busy now file = Ignored) \<and>
   (\<not> isPastedImage file \<and>
    \<not> (handleAllAttachments settings \<and>
       (excludeExtensionPattern settings = [] \<or>
        (\<exists>f'. file = AFile f' \<and>
           regExpTest (excludeExtensionPattern settings) (file_extension f') = Inr False))) \<longrightarrow>
      (\<forall>f' a'. onCreate settings regExpTest busy now file \<noteq> Started f' a'))"
  by (cases "file")
    (auto simp: onCreate_def testExcludeExtension_def Let_def split: sum.splits if_splits)

theorem onCreate_never_starts_witness:
  "onCreate (DEFAULT_SETTINGS\<lparr>handleAllAttachments := True\<rparr>) (\<lambda>p s. Inr False) False 5200
     (AFile dropped_pdf) = Started dropped_pdf False \<and>
   \<not> isMarkdownFile (AFile dropped_pdf) \<and>
   5200 - ctime dropped_pdf \<le> 1000 \<and>
   onCreate (DEFAULT_SETTINGS\<lparr>handleAllAttachments := True\<rparr>) (\<lambda>p s. Inr False) False 1200
     (AFile trip_note) = Ignored \<and>
   onCreate (DEFAULT_SETTINGS\<lparr>handleAllAttachments := True\<rparr>) (\<lambda>p s. Inr False) False 7000
     (AFile pasted_png) = Ignored"
proof -
  let ?S = "DEFAULT_SETTINGS\<lparr>handleAllAttachments := True\<rparr>"
  let ?R = "\<lambda>(p::string) (s::string). (Inr False :: rx_error + bool)"
  have h: "onCreate ?S ?R False 5200 (AFile dropped_pdf) = Started dropped_pdf False"
    by (simp add: onCreate_def dropped_pdf_def DEFAULT_SETTINGS_def testExcludeExtension_def
        PASTED_IMAGE_PREFIX_def startsWith_def)
  have m: "isMarkdownFile (AFile trip_note)"
    by (simp add: trip_note_def)
  have t: "7000 - ctime pasted_png > 1000"
    by (simp add: pasted_png_def)
  have a: "\<not> isMarkdownFile (AFile dropped_pdf) \<and> 5200 - ctime dropped_pdf \<le> 1000"
    using onCreate_never_starts [of ?S ?R False 5200 "AFile dropped_pdf" dropped_pdf False] h
    by blast
  have b: "onCreate ?S ?R False 1200 (AFile trip_note) = Ignored"
    using onCreate_never_starts [of ?S ?R False 1200 "AFile trip_note" trip_note False] m
    by blast
  have c: "onCreate ?S ?R False 7000 (AFile pasted_png) = Ignored"
    using onCreate_never_starts [of ?S ?R False 7000 "AFile pasted_png" pasted_png False] t
    by blast
  show ?thesis using h a b c by blast
qed

section \<open>The class of meaningless characters\<close>

lemma class_lex_plain:
  "backslash \<notin> set d \<Longrightarrow> CHR '']'' \<notin> set d \<Longrightarrow>
     class_lex False (d @ [backslash] @ ''s]'') = Inr (map class_tok d @ [KSpace], [])"
proof (induction d)
  case Nil
  then show ?case by (simp add: backslash_def)
next
  case (Cons c d)
  then have c: "c \<noteq> backslash" "c \<noteq> CHR '']''"
    and IH: "class_lex False (d @ [backslash] @ ''s]'') = Inr (map class_tok d @ [KSpace], [])"
    by auto
  have "class_lex False (c # (d @ [backslash] @ ''s]'')) =
      Inr (class_tok c # map class_tok d @ [KSpace], [])"
    unfolding class_lex.simps(2) IH using c by (simp add: class_tok_def)
  then show ?case by simp
qed


lemma accepted_simps [simp]:
  "accepted [] c = False"
  "accepted (i # items) c = (item_accepts i c \<or> accepted items c)"
  "accepted (xs @ ys) c = (accepted xs c \<or> accepted ys c)"
  by (auto simp: accepted_def list_ex_iff)

lemma class_range_space:
  "\<exists>items. class_range a KSpace = Inr items \<and>
     (\<forall>c. accepted items c \<longleftrightarrow> item_accepts (class_single a) c \<or> c = CHR ''-'' \<or> js_space c)"
  by (cases a) (auto simp: class_range_def)

lemma class_ranges_no_dash:
  assumes "KDash \<notin> set ts" and "suffix = [KSpace] \<or> suffix = [KDash, KSpace]"
  shows "\<exists>items. class_ranges (ts @ suffix) = Inr items \<and>
     (\<forall>c. accepted items c \<longleftrightarrow> (\<exists>t\<in>set (ts @ suffix). item_accepts (class_single t) c))"
  using assms
proof (induction ts)
  case Nil
  then show ?case by auto
next
  case (Cons a ts)
  then obtain items where IH: "class_ranges (ts @ suffix) = Inr items"
      "\<And>c. accepted items c \<longleftrightarrow> (\<exists>t\<in>set (ts @ suffix). item_accepts (class_single t) c)"
    by auto
  have a: "a \<noteq> KDash" using Cons.prems by auto
  show ?case
  proof (cases ts)
    case Nil
    show ?thesis
    proof (cases "suffix = [KSpace]")
      case True
      then show ?thesis using Nil by auto
    next
      case False
      then have s: "suffix = [KDash, KSpace]" using Cons.prems by auto
      obtain its where "class_range a KSpace = Inr its"
        "\<And>c. accepted its c \<longleftrightarrow> item_accepts (class_single a) c \<or> c = CHR ''-'' \<or> js_space c"
        using class_range_space [of a] by auto
      then show ?thesis using Nil s by auto
    qed
  next
    case (Cons b ts')
    then have b: "b \<noteq> KDash" using Cons.prems \<open>KDash \<notin> set (a # ts)\<close> by auto
    obtain x xs where r: "ts' @ suffix = x # xs"
      using Cons.prems(2) \<open>suffix = [KSpace] \<or> suffix = [KDash, KSpace]\<close>
      by (cases "ts' @ suffix") auto
    have "class_ranges ((a # ts) @ suffix) = Inr (class_single a # items)"
      using Cons r b IH(1) by simp
    then show ?thesis using IH(2) by auto
  qed
qed


lemma class_ranges_lead_dash:
  assumes "KDash \<notin> set ts" and "suffix = [KSpace] \<or> suffix = [KDash, KSpace]"
  shows "\<exists>items. class_ranges (KDash # ts @ suffix) = Inr items \<and>
     (\<forall>c. accepted items c \<longleftrightarrow> (\<exists>t\<in>set (KDash # ts @ suffix). item_accepts (class_single t) c))"
proof (cases ts)
  case Nil
  show ?thesis
  proof (cases "suffix = [KSpace]")
    case True
    then show ?thesis using Nil by auto
  next
    case False
    then have s: "suffix = [KDash, KSpace]" using assms by auto
    obtain its where "class_range KDash KSpace = Inr its"
      "\<And>c. accepted its c \<longleftrightarrow> item_accepts (class_single KDash) c \<or> c = CHR ''-'' \<or> js_space c"
      using class_range_space [of KDash] by auto
    then show ?thesis using Nil s by auto
  qed
next
  case (Cons b ts')
  then have b: "b \<noteq> KDash" using assms by auto
  obtain items where it: "class_ranges (ts @ suffix) = Inr items"
      "\<And>c. accepted items c \<longleftrightarrow> (\<exists>t\<in>set (ts @ suffix). item_accepts (class_single t) c)"
    using class_ranges_no_dash [OF assms] by auto
  obtain x xs where r: "ts' @ suffix = x # xs"
    using assms(2) by (cases "ts' @ suffix") auto
  have "class_ranges (KDash # ts @ suffix) = Inr (class_single KDash # items)"
    using Cons r b it(1) by simp
  then show ?thesis using it(2) by auto
qed

lemma class_single_tok: "class_single (class_tok x) = CChar x"
  by (simp add: class_tok_def)

lemma class_tok_dash: "class_tok x = KDash \<longleftrightarrow> x = CHR ''-''"
  by (simp add: class_tok_def)

lemma class_ranges_literal:
  assumes "CHR ''-'' \<notin> set (butlast (tl d))"
  shows "\<exists>items. class_ranges (map class_tok d @ [KSpace]) = Inr items \<and>
     (\<forall>c. accepted items c \<longleftrightarrow> c \<in> set d \<or> js_space c)"
proof -
  have goal: "\<exists>items. class_ranges (map class_tok d @ [KSpace]) = Inr items \<and>
     (\<forall>c. accepted items c \<longleftrightarrow>
        (\<exists>t\<in>set (map class_tok d @ [KSpace]). item_accepts (class_single t) c))"
  proof (cases d)
    case Nil
    then show ?thesis by auto
  next
    case (Cons x ys)
    show ?thesis
    proof (cases "ys = []")
      case True
      then show ?thesis using Cons by auto
    next
      case False
      define m where "m = butlast ys"
      define z where "z = last ys"
      have ys: "ys = m @ [z]" using False by (simp add: m_def z_def)
      have m: "CHR ''-'' \<notin> set m" using assms Cons by (simp add: m_def)
      define ts where "ts = (if z = CHR ''-'' then map class_tok m else map class_tok (m @ [z]))"
      define suffix where "suffix = (if z = CHR ''-'' then [KDash, KSpace] else [KSpace])"
      have split: "map class_tok ys @ [KSpace] = ts @ suffix"
        by (simp add: ys ts_def suffix_def class_tok_def)
      have nodash: "KDash \<notin> set ts"
        using m by (auto simp: ts_def class_tok_def)
      have suf: "suffix = [KSpace] \<or> suffix = [KDash, KSpace]"
        by (simp add: suffix_def)
      show ?thesis
      proof (cases "x = CHR ''-''")
        case True
        then have "map class_tok d @ [KSpace] = KDash # ts @ suffix"
          using Cons split by (simp add: class_tok_def)
        then show ?thesis using class_ranges_lead_dash [OF nodash suf] by simp
      next
        case False
        then have "map class_tok d @ [KSpace] = (class_tok x # ts) @ suffix"
          and "KDash \<notin> set (class_tok x # ts)"
          using Cons split nodash by (simp_all add: class_tok_def)
        then show ?thesis using class_ranges_no_dash [OF _ suf, of "class_tok x # ts"] by simp
      qed
    qed
  qed
  have "\<And>c. (\<exists>t\<in>set (map class_tok d @ [KSpace]). item_accepts (class_single t) c)
      \<longleftrightarrow> c \<in> set d \<or> js_space c"
    by (auto simp: class_single_tok)
  then show ?thesis using goal by simp
qed

lemma host_remover_error: "host_remover host pattern = Inl e \<Longrightarrow> e = SyntaxError"
  by (auto simp: host_remover_def split: option.splits)

lemma meaninglessRegex_literal:
  assumes "class_literal (dupNumberDelimiter settings)"
  shows "\<exists>cls. meaninglessRegex host settings = Inr (remove_class cls) \<and>
     (\<forall>c. class_accepts cls c \<longleftrightarrow> c \<in> set (dupNumberDelimiter settings) \<or> js_space c)"
proof -
  let ?d = "dupNumberDelimiter settings"
  have d: "backslash \<notin> set ?d" "CHR '']'' \<notin> set ?d"
    "CHR ''-'' \<notin> set (butlast (tl ?d))"
    using assms by (simp_all add: class_literal_def)
  have neg: "\<not> (case ?d @ [backslash] @ ''s]'' of [] \<Rightarrow> False | c # _ \<Rightarrow> c = CHR ''^'')"
    using assms by (cases ?d) (simp_all add: class_literal_def backslash_def)
  obtain items where it: "class_ranges (map class_tok ?d @ [KSpace]) = Inr items"
    "\<And>c. accepted items c \<longleftrightarrow> c \<in> set ?d \<or> js_space c"
    using class_ranges_literal [OF d(3)] by auto
  have "compile_class (meaninglessRegexText settings) = Inr (False, items)"
    using neg class_lex_plain [OF d(1,2)] it(1)
    by (simp add: meaninglessRegexText_def compile_class_def Let_def)
  then have "meaninglessRegex host settings = Inr (remove_class (False, items))"
    by (simp add: meaninglessRegex_def Let_def)
  moreover have "\<And>c. class_accepts (False, items) c \<longleftrightarrow> c \<in> set ?d \<or> js_space c"
    using it(2) by (simp add: class_accepts_def accepted_def)
  ultimately show ?thesis by blast
qed

lemma meaninglessRegex_error: "meaninglessRegex host settings = Inl e \<Longrightarrow> e = SyntaxError"
  by (auto simp: meaninglessRegex_def Let_def dest: host_remover_error
      split: sum.splits rx_error.splits if_splits)

section \<open>Properties of the name generation\<close>

text \<open>
  Where every character of the delimiter stands for itself in a character class (no
  backslash, no closing bracket, no leading \<^verbatim>\<open>^\<close>, a dash only first or last),
  \<^verbatim>\<open>generateNewName\<close> returns, and \<^verbatim>\<open>isMeaningful\<close> is true exactly when the stem, after
  the removal of every white-space character and of every character of the delimiter, is
  not empty.  A stem that renders to the empty string is then not meaningful, and
  \<^verbatim>\<open>startRenameProcess\<close> opens the modal, on the empty string, also with auto rename on.
\<close>

lemma generateNewName_literal:
  assumes "class_literal (dupNumberDelimiter settings)"
  shows "\<exists>g. generateNewName host settings render file activeFile fileCache = Inr g \<and>
     (isMeaningful g \<longleftrightarrow>
        filter (\<lambda>c. \<not> js_space c \<and> c \<notin> set (dupNumberDelimiter settings)) (genStem g) \<noteq> []) \<and>
     (genStem g = [] \<longrightarrow>
        \<not> isMeaningful g \<and>
        startRenameProcess host settings render file (Some (activeFile, fileCache)) True
          = OpenModal [])"
proof -
  obtain cls where cls: "meaninglessRegex host settings = Inr (remove_class cls)"
    "\<And>c. class_accepts cls c \<longleftrightarrow> c \<in> set (dupNumberDelimiter settings) \<or> js_space c"
    using meaninglessRegex_literal [OF assms, of host] by auto
  have f: "\<And>s. remove_class cls s =
      filter (\<lambda>c. \<not> js_space c \<and> c \<notin> set (dupNumberDelimiter settings)) s"
    unfolding remove_class_def using cls(2) by (intro filter_cong) auto
  show ?thesis
    by (auto simp: generateNewName_def startRenameProcess_def Let_def cls(1) f)
qed

text \<open>
  C4.  The delimiter is put into the character class unescaped, where
  \<^verbatim>\<open>deduplicateNewName\<close> escapes the same setting.  With the delimiter \<^verbatim>\<open>^\<close> the expression
  is \<^verbatim>\<open>[^\s]\<close>: every character that is not white space is removed, and the stem \<^verbatim>\<open>trip\<close>,
  which is not empty after the removal of white space and of \<^verbatim>\<open>^\<close>, is reported as not
  meaningful; with auto rename on, \<^verbatim>\<open>startRenameProcess\<close> opens the modal on the empty
  string instead of renaming the file to \<^verbatim>\<open>trip.png\<close>.
\<close>

theorem generateNewName_caret_delimiter:
  "generateNewName host (DEFAULT_SETTINGS\<lparr>dupNumberDelimiter := ''^''\<rparr>) render_fileName
       pasted_png trip_note None
     = Inr \<lparr> genStem = ''trip'', genNewName = ''trip.png'', isMeaningful = False \<rparr> \<and>
   filter (\<lambda>c. \<not> js_space c \<and> c \<notin> set ''^'') ''trip'' = ''trip'' \<and>
   startRenameProcess host (DEFAULT_SETTINGS\<lparr>dupNumberDelimiter := ''^''\<rparr>) render_fileName
       pasted_png (Some (trip_note, None)) True
     = OpenModal []"
  by code_simp

theorem generateNewName_caret_delimiter_witness:
  "generateNewName plain_host (DEFAULT_SETTINGS\<lparr>dupNumberDelimiter := ''^''\<rparr>) render_fileName
       pasted_png trip_note None
     = Inr \<lparr> genStem = ''trip'', genNewName = ''trip.png'', isMeaningful = False \<rparr> \<and>
   startRenameProcess plain_host (DEFAULT_SETTINGS\<lparr>dupNumberDelimiter := ''^''\<rparr>) render_fileName
       pasted_png (Some (trip_note, None)) True
     = OpenModal []"
  using generateNewName_caret_delimiter [of plain_host] by (elim conjE) (rule conjI)

text \<open>
  C8.  The name \<^verbatim>\<open>generateNewName\<close> returns is the rendered stem, a dot and the
  attachment's own extension, the stem being what \<^verbatim>\<open>renderTemplate\<close> makes of the pattern,
  of the frontmatter of the active file and of the four variables: the frontmatter key
  \<^verbatim>\<open>imageNameKey\<close>, the base name of the active file, the name of its folder, and its first
  heading of level one.  The extension of a file has no dot, so the extension of the
  generated name is the attachment's, and it is not empty when the attachment's is not.
  There is a result whenever the constructor of \<^verbatim>\<open>meaninglessRegex\<close> does not throw, as
  for every delimiter that a character class takes literally.
\<close>

theorem generateNewName_extension:
  "(generateNewName host settings render file activeFile fileCache = Inr g \<longrightarrow>
      genStem g =
        render (imageNamePattern settings)
          \<lparr> imageNameKey =
              (case fileCache of None \<Rightarrow> []
               | Some c \<Rightarrow>
                   (case frontmatter c of None \<Rightarrow> []
                    | Some m \<Rightarrow> (case m ''imageNameKey'' of None \<Rightarrow> [] | Some v \<Rightarrow> v))),
            fileName = file_basename activeFile,
            dirName = parent_name activeFile,
            firstHeading =
              (case fileCache of None \<Rightarrow> [] | Some c \<Rightarrow> getFirstHeading (headings c)) \<rparr>
          (case fileCache of None \<Rightarrow> None | Some c \<Rightarrow> frontmatter c) \<and>
      genNewName g = genStem g @ ''.'' @ file_extension file \<and>
      (CHR ''.'' \<notin> set (file_extension file) \<longrightarrow>
         path_extension (genNewName g) = file_extension file \<and>
         (file_extension file \<noteq> [] \<longrightarrow> path_extension (genNewName g) \<noteq> []))) \<and>
   ((\<exists>g. generateNewName host settings render file activeFile fileCache = Inr g) \<longleftrightarrow>
      meaninglessRegex host settings \<noteq> Inl SyntaxError) \<and>
   (class_literal (dupNumberDelimiter settings) \<longrightarrow>
      (\<exists>g. generateNewName host settings render file activeFile fileCache = Inr g))"
proof (intro conjI impI)
  assume gen: "generateNewName host settings render file activeFile fileCache = Inr g"
  then obtain remove where "meaninglessRegex host settings = Inr remove"
    by (auto simp: generateNewName_def Let_def split: sum.splits)
  then show "genStem g =
        render (imageNamePattern settings)
          \<lparr> imageNameKey =
              (case fileCache of None \<Rightarrow> []
               | Some c \<Rightarrow>
                   (case frontmatter c of None \<Rightarrow> []
                    | Some m \<Rightarrow> (case m ''imageNameKey'' of None \<Rightarrow> [] | Some v \<Rightarrow> v))),
            fileName = file_basename activeFile,
            dirName = parent_name activeFile,
            firstHeading =
              (case fileCache of None \<Rightarrow> [] | Some c \<Rightarrow> getFirstHeading (headings c)) \<rparr>
          (case fileCache of None \<Rightarrow> None | Some c \<Rightarrow> frontmatter c)"
    and nm: "genNewName g = genStem g @ ''.'' @ file_extension file"
    using gen by (auto simp: generateNewName_def Let_def split: option.splits)
  assume nodot: "CHR ''.'' \<notin> set (file_extension file)"
  show "path_extension (genNewName g) = file_extension file"
    unfolding nm by (rule path_extension_split [OF nodot])
  then show "path_extension (genNewName g) \<noteq> []" if "file_extension file \<noteq> []"
    using that by simp
next
  show "(\<exists>g. generateNewName host settings render file activeFile fileCache = Inr g) \<longleftrightarrow>
      meaninglessRegex host settings \<noteq> Inl SyntaxError"
  proof (cases "meaninglessRegex host settings")
    case (Inl e)
    then have "e = SyntaxError" by (rule meaninglessRegex_error)
    then show ?thesis using Inl by (simp add: generateNewName_def Let_def)
  next
    case (Inr remove)
    then show ?thesis by (simp add: generateNewName_def Let_def)
  qed
next
  assume "class_literal (dupNumberDelimiter settings)"
  then show "\<exists>g. generateNewName host settings render file activeFile fileCache = Inr g"
    using generateNewName_literal by blast
qed

theorem generateNewName_extension_witness:
  "generateNewName plain_host DEFAULT_SETTINGS render_key_heading_dir pasted_png trip_note
       (Some trip_cache)
     = Inr \<lparr> genStem = ''foo-Trip-notes'', genNewName = ''foo-Trip-notes.png'',
             isMeaningful = True \<rparr> \<and>
   file_extension pasted_png = ''png'' \<and>
   path_extension ''foo-Trip-notes.png'' = file_extension pasted_png \<and>
   generateNewName plain_host (DEFAULT_SETTINGS\<lparr>dupNumberDelimiter := '']''\<rparr>) render_fileName
       pasted_png trip_note None
     = Inr \<lparr> genStem = ''trip'', genNewName = ''trip.png'', isMeaningful = True \<rparr> \<and>
   meaninglessRegex plain_host DEFAULT_SETTINGS \<noteq> Inl SyntaxError \<and>
   class_literal (dupNumberDelimiter DEFAULT_SETTINGS)"
proof -
  let ?g = "\<lparr> genStem = ''foo-Trip-notes'', genNewName = ''foo-Trip-notes.png'',
      isMeaningful = True \<rparr>"
  have h1: "generateNewName plain_host DEFAULT_SETTINGS render_key_heading_dir pasted_png
      trip_note (Some trip_cache) = Inr ?g"
    by code_simp
  have h2: "file_extension pasted_png = ''png''"
    by (simp add: pasted_png_def)
  have h3: "CHR ''.'' \<notin> set (file_extension pasted_png)"
    by (simp add: pasted_png_def)
  have h4: "generateNewName plain_host (DEFAULT_SETTINGS\<lparr>dupNumberDelimiter := '']''\<rparr>)
      render_fileName pasted_png trip_note None
     = Inr \<lparr> genStem = ''trip'', genNewName = ''trip.png'', isMeaningful = True \<rparr>"
    by code_simp
  have h5: "class_literal (dupNumberDelimiter DEFAULT_SETTINGS)"
    by (simp add: class_literal_def DEFAULT_SETTINGS_def backslash_def)
  note inst = generateNewName_extension [of plain_host DEFAULT_SETTINGS render_key_heading_dir
      pasted_png trip_note "Some trip_cache" ?g]
  have "CHR ''.'' \<notin> set (file_extension pasted_png) \<longrightarrow>
      path_extension (genNewName ?g) = file_extension pasted_png \<and>
      (file_extension pasted_png \<noteq> [] \<longrightarrow> path_extension (genNewName ?g) \<noteq> [])"
    using mp [OF conjunct1 [OF inst] h1] by (elim conjE)
  then have a: "path_extension (genNewName ?g) = file_extension pasted_png"
    using h3 by blast
  have ex: "\<exists>g. generateNewName plain_host DEFAULT_SETTINGS render_key_heading_dir pasted_png
      trip_note (Some trip_cache) = Inr g"
    using h1 by (rule exI)
  have b: "meaninglessRegex plain_host DEFAULT_SETTINGS \<noteq> Inl SyntaxError"
    by (rule iffD1 [OF conjunct1 [OF conjunct2 [OF inst]] ex])
  from a have a': "path_extension ''foo-Trip-notes.png'' = file_extension pasted_png" by simp
  show ?thesis
    by (rule conjI [OF h1 conjI [OF h2 conjI [OF a' conjI [OF h4 conjI [OF b h5]]]]])
qed

section \<open>Properties of batch renaming\<close>








section \<open>Properties of the format conversion\<close>

text \<open>
  C6. The original is deleted before the replacement is written. Converting
  \<^verbatim>\<open>notes/shot.png\<close> to WebP in a folder that already holds \<^verbatim>\<open>notes/shot.webp\<close>: the encoder
  succeeds, \<^verbatim>\<open>vault.delete\<close> removes the PNG file, \<^verbatim>\<open>createBinary\<close> refuses the occupied path,
  and \<^verbatim>\<open>compressToFormat\<close> returns null with the original gone. The fallback rename of the
  caller then fails as well, because the file it is to rename no longer exists.
\<close>

theorem conversion_loses_the_original:
  "compressToFormat encode_ok 6000 shot_png ''webp'' crowded_world = (None, conversion_lost) \<and>
   convertAndRename host DEFAULT_SETTINGS encode_ok 6000 shot_png ''shot.webp'' ''webp'' crowded_world
     = (Some (IOFailure ''File not found.''),
        conversion_lost\<lparr>notices := [''Format conversion failed: Compression failed'',
                      ''Failed to rename shot-1.webp: Error: File not found.'']\<rparr>)"
  by code_simp

end
